theory Spec2Isabelle
  imports Complex_Main
begin

section \<open>Numbers and derived series\<close>

text \<open>
  The TypeScript sources compute with \<^verbatim>\<open>number\<close>. Prices and indicator values are modelled
  as \<^typ>\<open>real\<close> (exact arithmetic; rounding, NaN and the infinities of IEEE doubles are
  outside this development). Array indices and periods are integers: a period is an
  \<^typ>\<open>int\<close>, so that the comparisons \<^verbatim>\<open>i < period - 1\<close> and \<^verbatim>\<open>i === period - 1\<close> of the
  source are written as they stand, also for a period below 1. A division by zero,
  which the source can meet only for a period below 1 and answers with NaN or an
  infinity, is 0 in \<^typ>\<open>real\<close>; the statements about values are for periods from 1 on.

  A derived series is \<^verbatim>\<open>(number | null)[]\<close>: a list of \<^typ>\<open>real option\<close>, \<^term>\<open>None\<close> for
  \<^verbatim>\<open>null\<close>.
\<close>

type_synonym series = "real option list"

text \<open>
  \<^verbatim>\<open>ema!\<close> erases the type of \<^verbatim>\<open>null\<close> only; in arithmetic JavaScript converts
  \<^verbatim>\<open>null\<close> to 0.
\<close>

definition num :: "real option \<Rightarrow> real" where
  "num v = (case v of None \<Rightarrow> 0 | Some x \<Rightarrow> x)"

text \<open>\<^verbatim>\<open>xs.slice(0, e)\<close>: a negative end counts from the end of the array.\<close>

definition slice0 :: "'a list \<Rightarrow> int \<Rightarrow> 'a list" where
  "slice0 xs e = (if e < 0 then take (nat (int (length xs) + e)) xs else take (nat e) xs)"

section \<open>Indicator computation engine\<close>

subsection \<open>calculateEMA\<close>

text \<open>
  The body of the \<^verbatim>\<open>for\<close> loop of \<^verbatim>\<open>calculateEMA\<close>. The loop state is the pair of the
  variable \<^verbatim>\<open>ema\<close> and the array \<^verbatim>\<open>result\<close>; \<^verbatim>\<open>push\<close> appends.
\<close>

definition ema_step :: "real list \<Rightarrow> int \<Rightarrow> real option \<times> series \<Rightarrow> nat \<Rightarrow> real option \<times> series" where
  "ema_step data period st i =
     (let multiplier = 2 / (real_of_int period + 1); ema = fst st; result = snd st in
      if int i < period - 1 then (ema, result @ [None])
      else if int i = period - 1 then
        (let sum = foldl (+) 0 (slice0 data period); ema' = sum / real_of_int period
         in (Some ema', result @ [Some ema']))
      else
        (let ema' = (data ! i - num ema) * multiplier + num ema
         in (Some ema', result @ [Some ema'])))"

definition calculateEMA :: "real list \<Rightarrow> int \<Rightarrow> series" where
  "calculateEMA data period = snd (foldl (ema_step data period) (None, []) [0..<length data])"

text \<open>
  The value of the series at one index, by recursion on the index. It is the loop read
  off entry by entry, and serves to reason about \<^const>\<open>calculateEMA\<close>.
\<close>

fun ema_at :: "real list \<Rightarrow> int \<Rightarrow> nat \<Rightarrow> real option" where
  "ema_at data p 0 =
     (if 0 < p - 1 then None
      else if 0 = p - 1 then Some (foldl (+) 0 (slice0 data p) / real_of_int p)
      else Some (data ! 0 * (2 / (real_of_int p + 1))))"
| "ema_at data p (Suc i) =
     (if int (Suc i) < p - 1 then None
      else if int (Suc i) = p - 1 then Some (foldl (+) 0 (slice0 data p) / real_of_int p)
      else Some ((data ! Suc i - num (ema_at data p i)) * (2 / (real_of_int p + 1))
                 + num (ema_at data p i)))"

subsection \<open>calculateMACD\<close>

text \<open>
  \<^verbatim>\<open>fastEMA.map((fast, i) => ...)\<close> reads \<^verbatim>\<open>slowEMA[i]\<close> at the indices of
  \<^verbatim>\<open>fastEMA\<close>; both arrays come from \<^const>\<open>calculateEMA\<close> on the same data and have its
  length, so the read is always in range. The histogram is computed by a second
  \<^verbatim>\<open>map\<close> of the same shape, over the MACD line and the signal line, which have the
  same length too.
\<close>

definition macd_diff :: "series \<Rightarrow> series \<Rightarrow> series" where
  "macd_diff fastEMA slowEMA =
     map (\<lambda>i. case fastEMA ! i of None \<Rightarrow> None
               | Some fast \<Rightarrow> (case slowEMA ! i of None \<Rightarrow> None
                               | Some slow \<Rightarrow> Some (fast - slow)))
         [0..<length fastEMA]"

text \<open>
  The loop that maps the signal EMA back onto the full index axis; the state is
  \<^verbatim>\<open>signalIdx\<close> and \<^verbatim>\<open>signalLine\<close>. \<^verbatim>\<open>signalEMA[signalIdx] ?? null\<close> is \<^verbatim>\<open>null\<close>
  when the read is out of range.
\<close>

definition signal_step :: "series \<Rightarrow> series \<Rightarrow> nat \<times> series \<Rightarrow> nat \<Rightarrow> nat \<times> series" where
  "signal_step macdLine signalEMA st i =
     (let signalIdx = fst st; signalLine = snd st in
      if macdLine ! i = None then (signalIdx, signalLine @ [None])
      else (signalIdx + 1,
            signalLine @ [if signalIdx < length signalEMA then signalEMA ! signalIdx else None]))"

record macd_result =
  macdLine :: series
  signalLine :: series
  histogram :: series

definition calculateMACD :: "real list \<Rightarrow> int \<Rightarrow> int \<Rightarrow> int \<Rightarrow> macd_result" where
  "calculateMACD data fastPeriod slowPeriod signalPeriod =
     (let fastEMA = calculateEMA data fastPeriod;
          slowEMA = calculateEMA data slowPeriod;
          macdLine = macd_diff fastEMA slowEMA;
          validMacdValues = map the (filter (\<lambda>v. v \<noteq> None) macdLine);
          signalEMA = calculateEMA validMacdValues signalPeriod;
          signalLine = snd (foldl (signal_step macdLine signalEMA) (0, []) [0..<length macdLine]);
          histogram = macd_diff macdLine signalLine
      in \<lparr>macdLine = macdLine, signalLine = signalLine, histogram = histogram\<rparr>)"

text \<open>
  The index of the first defined entry of a series (its length when no entry is
  defined).
\<close>

definition first_defined :: "series \<Rightarrow> nat" where
  "first_defined xs = length (takeWhile (\<lambda>v. v = None) xs)"

text \<open>
  The number of leading undefined entries of the MACD line of \<open>n\<close> prices: both EMAs
  must have passed their warm-up.
\<close>

definition macd_warmup :: "nat \<Rightarrow> int \<Rightarrow> int \<Rightarrow> nat" where
  "macd_warmup n fast slow = min n (nat (max fast slow - 1))"

subsection \<open>calculateRSI\<close>

text \<open>
  The first loop sums the first \<^verbatim>\<open>period\<close> changes into \<^verbatim>\<open>avgGain\<close> and \<^verbatim>\<open>avgLoss\<close> and
  pushes one \<^verbatim>\<open>null\<close> per change. The state of both loops is
  \<^verbatim>\<open>(avgGain, avgLoss, result)\<close>.
\<close>

definition rsi_seed_step :: "real list \<Rightarrow> real \<times> real \<times> series \<Rightarrow> nat \<Rightarrow> real \<times> real \<times> series" where
  "rsi_seed_step changes st i =
     (case st of (avgGain, avgLoss, result) \<Rightarrow>
        if changes ! i > 0 then (avgGain + changes ! i, avgLoss, result @ [None])
        else (avgGain, avgLoss + \<bar>changes ! i\<bar>, result @ [None]))"

definition rsi_value :: "real \<Rightarrow> real \<Rightarrow> real option" where
  "rsi_value avgGain avgLoss =
     (if avgLoss = 0 then Some 100
      else (let rs = avgGain / avgLoss in Some (100 - 100 / (1 + rs))))"

text \<open>
  The second loop runs \<^verbatim>\<open>i\<close> from \<^verbatim>\<open>period + 1\<close> while \<^verbatim>\<open>i < changes.length\<close>. For a
  period below \<open>-1\<close> it starts at a negative index, where \<^verbatim>\<open>changes[i]\<close> is
  \<^verbatim>\<open>undefined\<close> and both comparisons are false, so gain and loss are 0.
\<close>

definition rsi_smooth_step ::
  "real list \<Rightarrow> int \<Rightarrow> real \<times> real \<times> series \<Rightarrow> int \<Rightarrow> real \<times> real \<times> series" where
  "rsi_smooth_step changes period st i =
     (case st of (avgGain, avgLoss, result) \<Rightarrow>
        let change = (if 0 \<le> i then Some (changes ! nat i) else None);
            gain = (case change of Some c \<Rightarrow> if c > 0 then c else 0 | None \<Rightarrow> 0);
            loss = (case change of Some c \<Rightarrow> if c < 0 then \<bar>c\<bar> else 0 | None \<Rightarrow> 0);
            avgGain' = (avgGain * (real_of_int period - 1) + gain) / real_of_int period;
            avgLoss' = (avgLoss * (real_of_int period - 1) + loss) / real_of_int period
        in (avgGain', avgLoss', result @ [rsi_value avgGain' avgLoss']))"

definition price_changes :: "real list \<Rightarrow> real list" where
  "price_changes data = map (\<lambda>i. data ! i - data ! (i - 1)) [1..<length data]"

definition calculateRSI :: "real list \<Rightarrow> int \<Rightarrow> series" where
  "calculateRSI data period =
     (if int (length data) < period + 1 then map (\<lambda>_. None) data
      else
        (let changes = price_changes data;
             seeded = foldl (rsi_seed_step changes) (0, 0, [None]) [0..<nat period]
         in case seeded of (sumGain, sumLoss, result) \<Rightarrow>
           let avgGain = sumGain / real_of_int period;
               avgLoss = sumLoss / real_of_int period;
               result' = result @ [rsi_value avgGain avgLoss]
           in snd (snd (foldl (rsi_smooth_step changes period) (avgGain, avgLoss, result')
                          [period + 1 .. int (length changes) - 1]))))"

text \<open>The gain and the loss of one price change.\<close>

definition gain_of :: "real \<Rightarrow> real" where
  "gain_of c = (if c > 0 then c else 0)"

definition loss_of :: "real \<Rightarrow> real" where
  "loss_of c = (if c < 0 then \<bar>c\<bar> else 0)"

text \<open>
  The variables \<^verbatim>\<open>(avgGain, avgLoss)\<close> of \<^verbatim>\<open>calculateRSI\<close> after \<open>j\<close> iterations of its
  second loop, read off the source. The loop starts at \<^verbatim>\<open>i = period + 1\<close>, so its
  iteration \<open>j\<close> reads \<^verbatim>\<open>changes[period + 1 + j]\<close>; the seed loop reads the changes below
  \<^verbatim>\<open>period\<close>, and \<^verbatim>\<open>changes[period]\<close> is read by neither. This serves to reason about
  \<^const>\<open>calculateRSI\<close> and is no part of the specification.
\<close>

fun loop_avgs :: "real list \<Rightarrow> int \<Rightarrow> real \<times> real \<Rightarrow> nat \<Rightarrow> real \<times> real" where
  "loop_avgs changes p seed 0 = seed"
| "loop_avgs changes p seed (Suc j) =
     (case loop_avgs changes p seed j of (g, l) \<Rightarrow>
        ((g * (real_of_int p - 1) + gain_of (changes ! (nat p + 1 + j))) / real_of_int p,
         (l * (real_of_int p - 1) + loss_of (changes ! (nat p + 1 + j))) / real_of_int p))"

definition seed_gain :: "real list \<Rightarrow> int \<Rightarrow> real" where
  "seed_gain changes p = (\<Sum>c\<leftarrow>take (nat p) changes. gain_of c) / real_of_int p"

definition seed_loss :: "real list \<Rightarrow> int \<Rightarrow> real" where
  "seed_loss changes p = (\<Sum>c\<leftarrow>take (nat p) changes. loss_of c) / real_of_int p"

text \<open>
  The RSI as the specification words it. The series is index-aligned with the prices,
  and \<open>period + 1\<close> prices suffice for a defined value: the first \<open>period\<close> changes, those
  of the prices \<open>0..period\<close>, seed the averages, and the first defined value stands at
  index \<open>period\<close>; all indices before it are undefined. Each subsequent index applies
  Wilder's recursion \<open>avg = (avg * (period - 1) + current) / period\<close> to gains and to
  losses, \<open>current\<close> being the gain (the loss) of the change that leads to that index:
  step \<open>j\<close> consumes the change at index \<open>period + j\<close>. A value is
  \<open>100 - 100 / (1 + avgGain / avgLoss)\<close>, or 100 when \<open>avgLoss = 0\<close>.
\<close>

fun wilder_spec :: "real list \<Rightarrow> int \<Rightarrow> real \<times> real \<Rightarrow> nat \<Rightarrow> real \<times> real" where
  "wilder_spec changes p seed 0 = seed"
| "wilder_spec changes p seed (Suc j) =
     (case wilder_spec changes p seed j of (g, l) \<Rightarrow>
        ((g * (real_of_int p - 1) + gain_of (changes ! (nat p + j))) / real_of_int p,
         (l * (real_of_int p - 1) + loss_of (changes ! (nat p + j))) / real_of_int p))"

definition rsi_spec :: "real list \<Rightarrow> int \<Rightarrow> series" where
  "rsi_spec data p =
     (if int (length data) < p + 1 then replicate (length data) None
      else replicate (nat p) None
           @ map (\<lambda>j. case wilder_spec (price_changes data) p
                              (seed_gain (price_changes data) p,
                               seed_loss (price_changes data) p) j
                       of (g, l) \<Rightarrow> if l = 0 then Some 100 else Some (100 - 100 / (1 + g / l)))
               [0..<length data - nat p])"

section \<open>Event detector\<close>

text \<open>
  An array read \<^verbatim>\<open>xs[i]\<close> of a \<^verbatim>\<open>(number | null)[]\<close> gives a number, \<^verbatim>\<open>null\<close>, or
  \<^verbatim>\<open>undefined\<close> when \<open>i\<close> is out of range.
\<close>

datatype cell = Undefined | Null | Number real

definition cell_at :: "series \<Rightarrow> nat \<Rightarrow> cell" where
  "cell_at xs i =
     (if i < length xs then (case xs ! i of None \<Rightarrow> Null | Some x \<Rightarrow> Number x)
      else Undefined)"

text \<open>
  The relational operators convert their operands to numbers: \<^verbatim>\<open>null\<close> to 0 and
  \<^verbatim>\<open>undefined\<close> to NaN, and every comparison with NaN is false.
\<close>

definition to_number :: "cell \<Rightarrow> real option" where
  "to_number c = (case c of Undefined \<Rightarrow> None | Null \<Rightarrow> Some 0 | Number x \<Rightarrow> Some x)"

definition js_le :: "cell \<Rightarrow> cell \<Rightarrow> bool" where
  "js_le a b = (case (to_number a, to_number b) of (Some x, Some y) \<Rightarrow> x \<le> y | _ \<Rightarrow> False)"

definition js_lt :: "cell \<Rightarrow> cell \<Rightarrow> bool" where
  "js_lt a b = (case (to_number a, to_number b) of (Some x, Some y) \<Rightarrow> x < y | _ \<Rightarrow> False)"

datatype crossover_type = bullish | bearish

text \<open>
  A crossover \<^verbatim>\<open>{ time, type }\<close>. The time is \<^verbatim>\<open>times[i]\<close>: \<^term>\<open>None\<close> stands for the
  \<^verbatim>\<open>undefined\<close> that the read yields when \<^verbatim>\<open>times\<close> is shorter than the series.
\<close>

record crossover =
  time :: "real option"
  type :: crossover_type

definition time_at :: "real list \<Rightarrow> nat \<Rightarrow> real option" where
  "time_at times' i = (if i < length times' then Some (times' ! i) else None)"

text \<open>The body of the loop of \<^verbatim>\<open>findMACDCrossovers\<close>; the state is \<^verbatim>\<open>crossovers\<close>.\<close>

definition macd_cross_step ::
  "series \<Rightarrow> series \<Rightarrow> real list \<Rightarrow> crossover list \<Rightarrow> nat \<Rightarrow> crossover list" where
  "macd_cross_step macdLine' signalLine' times' crossovers i =
     (let prevMacd = cell_at macdLine' (i - 1);
          currMacd = cell_at macdLine' i;
          prevSignal = cell_at signalLine' (i - 1);
          currSignal = cell_at signalLine' i
      in if prevMacd = Null \<or> currMacd = Null \<or> prevSignal = Null \<or> currSignal = Null
         then crossovers
         else if js_le prevMacd prevSignal \<and> js_lt currSignal currMacd
         then crossovers @ [\<lparr>time = time_at times' i, type = bullish\<rparr>]
         else if js_le prevSignal prevMacd \<and> js_lt currMacd currSignal
         then crossovers @ [\<lparr>time = time_at times' i, type = bearish\<rparr>]
         else crossovers)"

definition findMACDCrossovers :: "series \<Rightarrow> series \<Rightarrow> real list \<Rightarrow> crossover list" where
  "findMACDCrossovers macdLine' signalLine' times' =
     foldl (macd_cross_step macdLine' signalLine' times') [] [1..<length macdLine']"

definition zero_cross_step :: "series \<Rightarrow> real list \<Rightarrow> crossover list \<Rightarrow> nat \<Rightarrow> crossover list" where
  "zero_cross_step macdLine' times' crossovers i =
     (let prevMacd = cell_at macdLine' (i - 1);
          currMacd = cell_at macdLine' i
      in if prevMacd = Null \<or> currMacd = Null
         then crossovers
         else if js_le prevMacd (Number 0) \<and> js_lt (Number 0) currMacd
         then crossovers @ [\<lparr>time = time_at times' i, type = bullish\<rparr>]
         else if js_le (Number 0) prevMacd \<and> js_lt currMacd (Number 0)
         then crossovers @ [\<lparr>time = time_at times' i, type = bearish\<rparr>]
         else crossovers)"

definition findZeroLineCrossovers :: "series \<Rightarrow> real list \<Rightarrow> crossover list" where
  "findZeroLineCrossovers macdLine' times' =
     foldl (zero_cross_step macdLine' times') [] [1..<length macdLine']"

text \<open>
  The classification of the adjacent pair \<open>(i - 1, i)\<close> as the specification words it,
  for two series \<open>A\<close> and \<open>B\<close>: the pair counts only when all four samples are defined;
  it is bullish when \<open>prev[A] \<le> prev[B]\<close> and \<open>curr[A] > curr[B]\<close>, bearish when
  \<open>prev[A] \<ge> prev[B]\<close> and \<open>curr[A] < curr[B]\<close>.
\<close>

definition pair_defined :: "series \<Rightarrow> series \<Rightarrow> nat \<Rightarrow> bool" where
  "pair_defined A B i \<longleftrightarrow>
     A ! (i - 1) \<noteq> None \<and> A ! i \<noteq> None \<and> B ! (i - 1) \<noteq> None \<and> B ! i \<noteq> None"

definition is_bullish :: "series \<Rightarrow> series \<Rightarrow> nat \<Rightarrow> bool" where
  "is_bullish A B i \<longleftrightarrow>
     pair_defined A B i \<and> the (A ! (i - 1)) \<le> the (B ! (i - 1)) \<and> the (A ! i) > the (B ! i)"

definition is_bearish :: "series \<Rightarrow> series \<Rightarrow> nat \<Rightarrow> bool" where
  "is_bearish A B i \<longleftrightarrow>
     pair_defined A B i \<and> the (A ! (i - 1)) \<ge> the (B ! (i - 1)) \<and> the (A ! i) < the (B ! i)"

definition crossing_at :: "series \<Rightarrow> series \<Rightarrow> real list \<Rightarrow> nat \<Rightarrow> crossover" where
  "crossing_at A B times' i =
     \<lparr>time = Some (times' ! i), type = (if is_bullish A B i then bullish else bearish)\<rparr>"

section \<open>Command schema and validator\<close>

text \<open>
  The validator receives values produced by \<^verbatim>\<open>JSON.parse\<close>. A number of such a value
  is a finite double, a \<^typ>\<open>real\<close> here, or an infinity, which \<^verbatim>\<open>JSON.parse\<close> yields for
  a literal beyond the range of the doubles such as \<^verbatim>\<open>1e999\<close>; NaN does not occur. An
  object is an association list read with \<^const>\<open>map_of\<close>; a key that is not bound reads
  as \<^verbatim>\<open>undefined\<close>.
\<close>

datatype number = Finite real | PosInfinity | NegInfinity

datatype json =
    JNull
  | JBool bool
  | JNumber number
  | JString string
  | JArray "json list"
  | JObject "(string \<times> json) list"

datatype Timeframe = TF_1h | TF_4h | TF_1d

datatype IndicatorType = MACD | RSI | EMA

datatype PaneType = Pane_price | Pane_indicator

text \<open>\<^verbatim>\<open>Record<string, number>\<close>.\<close>

type_synonym params = "(string \<times> number) list"

record HighlightPoint =
  hp_time :: number
  hp_price :: "number option"
  hp_pane :: "PaneType option"
  hp_label :: "string option"

record Region =
  rg_fromTime :: number
  rg_toTime :: number
  rg_pane :: "PaneType option"
  rg_label :: "string option"

record Annotation =
  an_time :: number
  an_price :: "number option"
  an_text :: string
  an_pane :: "PaneType option"

datatype ChartAction =
    SET_SYMBOL string
  | SET_TIMEFRAME Timeframe
  | LOAD_CANDLES string string "number option" "number option"
  | ADD_INDICATOR IndicatorType "params option"
  | UPDATE_INDICATOR_PARAMS IndicatorType params
  | HIGHLIGHT_POINTS "HighlightPoint list"
  | HIGHLIGHT_REGION Region
  | ADD_ANNOTATION Annotation
  | FOCUS_RANGE number number
  | CLEAR_HIGHLIGHTS
  | CLEAR_INDICATORS

subsection \<open>The schema combinators\<close>

text \<open>
  A schema maps a value to the parsed result, or to \<^term>\<open>None\<close> where \<^verbatim>\<open>parse\<close>
  throws. A schema of an object field is applied to the result of the field read:
  \<^term>\<open>None\<close> is an absent key. Only \<^verbatim>\<open>.optional()\<close> accepts an absent key.

  The combinators belong to the zod library, which is not among the sources, and no
  source pins its release. They are embedded with the behaviour of the library on the
  values that \<^verbatim>\<open>JSON.parse\<close> can produce. On these values the releases 3 and 4 differ in
  two points, and the release is a parameter of the embedding:
  \<^item> \<^verbatim>\<open>z.number()\<close>, which these schemas never restrict with \<^verbatim>\<open>.finite()\<close>, accepts the
    infinities in release 3 and rejects them in release 4;
  \<^item> \<^verbatim>\<open>z.record\<close> checks the value under an own key \<^verbatim>\<open>__proto__\<close> in release 3 and
    passes over that key unchecked in release 4; both leave the key out of the parsed
    record.
\<close>

datatype zod_release = Zod3 | Zod4

definition z_string :: "json option \<Rightarrow> string option" where
  "z_string v = (case v of Some (JString x) \<Rightarrow> Some x | _ \<Rightarrow> None)"

definition z_number :: "zod_release \<Rightarrow> json option \<Rightarrow> number option" where
  "z_number rel v =
     (case v of
        Some (JNumber n) \<Rightarrow>
          (case n of Finite x \<Rightarrow> Some n
           | _ \<Rightarrow> if rel = Zod3 then Some n else None)
      | _ \<Rightarrow> None)"

definition z_literal :: "string \<Rightarrow> json option \<Rightarrow> unit option" where
  "z_literal lit v = (case v of Some (JString x) \<Rightarrow> if x = lit then Some () else None
                     | _ \<Rightarrow> None)"

definition z_optional :: "(json option \<Rightarrow> 'a option) \<Rightarrow> json option \<Rightarrow> 'a option option" where
  "z_optional schema v = (case v of None \<Rightarrow> Some None | Some x \<Rightarrow> map_option Some (schema v))"

definition z_object :: "json option \<Rightarrow> (string \<times> json) list option" where
  "z_object v = (case v of Some (JObject fs) \<Rightarrow> Some fs | _ \<Rightarrow> None)"

text \<open>All elements must parse; the first failure rejects the array.\<close>

fun parse_all :: "(json option \<Rightarrow> 'a option) \<Rightarrow> json list \<Rightarrow> 'a list option" where
  "parse_all schema [] = Some []"
| "parse_all schema (x # xs) =
     (case schema (Some x) of None \<Rightarrow> None
      | Some y \<Rightarrow> (case parse_all schema xs of None \<Rightarrow> None | Some ys \<Rightarrow> Some (y # ys)))"

definition z_array :: "(json option \<Rightarrow> 'a option) \<Rightarrow> json option \<Rightarrow> 'a list option" where
  "z_array schema v = (case v of Some (JArray xs) \<Rightarrow> parse_all schema xs | _ \<Rightarrow> None)"

text \<open>\<^verbatim>\<open>z.record(z.string(), z.number())\<close>: an object all of whose values are numbers.\<close>

fun parse_entries :: "zod_release \<Rightarrow> (string \<times> json) list \<Rightarrow> params option" where
  "parse_entries rel [] = Some []"
| "parse_entries rel ((k, x) # fs) =
     (if k = ''__proto__'' then
        (if rel = Zod4 then parse_entries rel fs
         else (case z_number rel (Some x) of None \<Rightarrow> None | Some y \<Rightarrow> parse_entries rel fs))
      else
        (case z_number rel (Some x) of None \<Rightarrow> None
         | Some y \<Rightarrow> (case parse_entries rel fs of None \<Rightarrow> None
                       | Some ys \<Rightarrow> Some ((k, y) # ys))))"

definition z_record_number :: "zod_release \<Rightarrow> json option \<Rightarrow> params option" where
  "z_record_number rel v =
     (case v of Some (JObject fs) \<Rightarrow> parse_entries rel fs | _ \<Rightarrow> None)"

subsection \<open>The schemas of the source\<close>

definition TimeframeSchema :: "json option \<Rightarrow> Timeframe option" where
  "TimeframeSchema v =
     (case v of Some (JString x) \<Rightarrow>
        if x = ''1h'' then Some TF_1h else if x = ''4h'' then Some TF_4h
        else if x = ''1d'' then Some TF_1d else None
      | _ \<Rightarrow> None)"

definition IndicatorTypeSchema :: "json option \<Rightarrow> IndicatorType option" where
  "IndicatorTypeSchema v =
     (case v of Some (JString x) \<Rightarrow>
        if x = ''MACD'' then Some MACD else if x = ''RSI'' then Some RSI
        else if x = ''EMA'' then Some EMA else None
      | _ \<Rightarrow> None)"

definition PaneTypeSchema :: "json option \<Rightarrow> PaneType option" where
  "PaneTypeSchema v =
     (case v of Some (JString x) \<Rightarrow>
        if x = ''price'' then Some Pane_price
        else if x = ''indicator'' then Some Pane_indicator else None
      | _ \<Rightarrow> None)"

definition SetSymbolActionSchema :: "json option \<Rightarrow> ChartAction option" where
  "SetSymbolActionSchema v =
     Option.bind (z_object v) (\<lambda>fs.
     Option.bind (z_literal ''SET_SYMBOL'' (map_of fs ''type'')) (\<lambda>_.
     Option.bind (z_string (map_of fs ''symbol'')) (\<lambda>sym.
     Some (SET_SYMBOL sym))))"

definition SetTimeframeActionSchema :: "json option \<Rightarrow> ChartAction option" where
  "SetTimeframeActionSchema v =
     Option.bind (z_object v) (\<lambda>fs.
     Option.bind (z_literal ''SET_TIMEFRAME'' (map_of fs ''type'')) (\<lambda>_.
     Option.bind (TimeframeSchema (map_of fs ''timeframe'')) (\<lambda>tf.
     Some (SET_TIMEFRAME tf))))"

definition LoadCandlesActionSchema :: "zod_release \<Rightarrow> json option \<Rightarrow> ChartAction option" where
  "LoadCandlesActionSchema rel v =
     Option.bind (z_object v) (\<lambda>fs.
     Option.bind (z_literal ''LOAD_CANDLES'' (map_of fs ''type'')) (\<lambda>_.
     Option.bind (z_string (map_of fs ''symbol'')) (\<lambda>sym.
     Option.bind (z_string (map_of fs ''timeframe'')) (\<lambda>tf.
     Option.bind (z_optional (z_number rel) (map_of fs ''from'')) (\<lambda>from.
     Option.bind (z_optional (z_number rel) (map_of fs ''to'')) (\<lambda>to.
     Some (LOAD_CANDLES sym tf from to)))))))"

definition AddIndicatorActionSchema :: "zod_release \<Rightarrow> json option \<Rightarrow> ChartAction option" where
  "AddIndicatorActionSchema rel v =
     Option.bind (z_object v) (\<lambda>fs.
     Option.bind (z_literal ''ADD_INDICATOR'' (map_of fs ''type'')) (\<lambda>_.
     Option.bind (IndicatorTypeSchema (map_of fs ''indicator'')) (\<lambda>ind.
     Option.bind (z_optional (z_record_number rel) (map_of fs ''params'')) (\<lambda>ps.
     Some (ADD_INDICATOR ind ps)))))"

definition UpdateIndicatorParamsActionSchema :: "zod_release \<Rightarrow> json option \<Rightarrow> ChartAction option" where
  "UpdateIndicatorParamsActionSchema rel v =
     Option.bind (z_object v) (\<lambda>fs.
     Option.bind (z_literal ''UPDATE_INDICATOR_PARAMS'' (map_of fs ''type'')) (\<lambda>_.
     Option.bind (IndicatorTypeSchema (map_of fs ''indicator'')) (\<lambda>ind.
     Option.bind (z_record_number rel (map_of fs ''params'')) (\<lambda>ps.
     Some (UPDATE_INDICATOR_PARAMS ind ps)))))"

definition HighlightPointSchema :: "zod_release \<Rightarrow> json option \<Rightarrow> HighlightPoint option" where
  "HighlightPointSchema rel v =
     Option.bind (z_object v) (\<lambda>fs.
     Option.bind (z_number rel (map_of fs ''time'')) (\<lambda>t.
     Option.bind (z_optional (z_number rel) (map_of fs ''price'')) (\<lambda>p.
     Option.bind (z_optional PaneTypeSchema (map_of fs ''pane'')) (\<lambda>pn.
     Option.bind (z_optional z_string (map_of fs ''label'')) (\<lambda>l.
     Some \<lparr>hp_time = t, hp_price = p, hp_pane = pn, hp_label = l\<rparr>)))))"

definition HighlightPointsActionSchema :: "zod_release \<Rightarrow> json option \<Rightarrow> ChartAction option" where
  "HighlightPointsActionSchema rel v =
     Option.bind (z_object v) (\<lambda>fs.
     Option.bind (z_literal ''HIGHLIGHT_POINTS'' (map_of fs ''type'')) (\<lambda>_.
     Option.bind (z_array (HighlightPointSchema rel) (map_of fs ''points'')) (\<lambda>pts.
     Some (HIGHLIGHT_POINTS pts))))"

definition RegionSchema :: "zod_release \<Rightarrow> json option \<Rightarrow> Region option" where
  "RegionSchema rel v =
     Option.bind (z_object v) (\<lambda>fs.
     Option.bind (z_number rel (map_of fs ''fromTime'')) (\<lambda>f.
     Option.bind (z_number rel (map_of fs ''toTime'')) (\<lambda>t.
     Option.bind (z_optional PaneTypeSchema (map_of fs ''pane'')) (\<lambda>pn.
     Option.bind (z_optional z_string (map_of fs ''label'')) (\<lambda>l.
     Some \<lparr>rg_fromTime = f, rg_toTime = t, rg_pane = pn, rg_label = l\<rparr>)))))"

definition HighlightRegionActionSchema :: "zod_release \<Rightarrow> json option \<Rightarrow> ChartAction option" where
  "HighlightRegionActionSchema rel v =
     Option.bind (z_object v) (\<lambda>fs.
     Option.bind (z_literal ''HIGHLIGHT_REGION'' (map_of fs ''type'')) (\<lambda>_.
     Option.bind (RegionSchema rel (map_of fs ''region'')) (\<lambda>r.
     Some (HIGHLIGHT_REGION r))))"

definition AnnotationSchema :: "zod_release \<Rightarrow> json option \<Rightarrow> Annotation option" where
  "AnnotationSchema rel v =
     Option.bind (z_object v) (\<lambda>fs.
     Option.bind (z_number rel (map_of fs ''time'')) (\<lambda>t.
     Option.bind (z_optional (z_number rel) (map_of fs ''price'')) (\<lambda>p.
     Option.bind (z_string (map_of fs ''text'')) (\<lambda>x.
     Option.bind (z_optional PaneTypeSchema (map_of fs ''pane'')) (\<lambda>pn.
     Some \<lparr>an_time = t, an_price = p, an_text = x, an_pane = pn\<rparr>)))))"

definition AddAnnotationActionSchema :: "zod_release \<Rightarrow> json option \<Rightarrow> ChartAction option" where
  "AddAnnotationActionSchema rel v =
     Option.bind (z_object v) (\<lambda>fs.
     Option.bind (z_literal ''ADD_ANNOTATION'' (map_of fs ''type'')) (\<lambda>_.
     Option.bind (AnnotationSchema rel (map_of fs ''annotation'')) (\<lambda>a.
     Some (ADD_ANNOTATION a))))"

definition RangeSchema :: "zod_release \<Rightarrow> json option \<Rightarrow> (number \<times> number) option" where
  "RangeSchema rel v =
     Option.bind (z_object v) (\<lambda>fs.
     Option.bind (z_number rel (map_of fs ''fromTime'')) (\<lambda>f.
     Option.bind (z_number rel (map_of fs ''toTime'')) (\<lambda>t.
     Some (f, t))))"

definition FocusRangeActionSchema :: "zod_release \<Rightarrow> json option \<Rightarrow> ChartAction option" where
  "FocusRangeActionSchema rel v =
     Option.bind (z_object v) (\<lambda>fs.
     Option.bind (z_literal ''FOCUS_RANGE'' (map_of fs ''type'')) (\<lambda>_.
     Option.bind (RangeSchema rel (map_of fs ''range'')) (\<lambda>r.
     Some (FOCUS_RANGE (fst r) (snd r)))))"

definition ClearHighlightsActionSchema :: "json option \<Rightarrow> ChartAction option" where
  "ClearHighlightsActionSchema v =
     Option.bind (z_object v) (\<lambda>fs.
     Option.bind (z_literal ''CLEAR_HIGHLIGHTS'' (map_of fs ''type'')) (\<lambda>_.
     Some CLEAR_HIGHLIGHTS))"

definition ClearIndicatorsActionSchema :: "json option \<Rightarrow> ChartAction option" where
  "ClearIndicatorsActionSchema v =
     Option.bind (z_object v) (\<lambda>fs.
     Option.bind (z_literal ''CLEAR_INDICATORS'' (map_of fs ''type'')) (\<lambda>_.
     Some CLEAR_INDICATORS))"

text \<open>
  \<^verbatim>\<open>z.discriminatedUnion("type", [...])\<close>: the input must be an object; the value of its
  \<^verbatim>\<open>type\<close> key selects the option whose literal it equals, and no option means
  rejection. \<^verbatim>\<open>ChartActionSchema.parse\<close> throws where this function is \<^term>\<open>None\<close>.
\<close>

definition ChartActionSchema_parse :: "zod_release \<Rightarrow> json \<Rightarrow> ChartAction option" where
  "ChartActionSchema_parse rel v =
     (case v of
        JObject fs \<Rightarrow>
          (case map_of fs ''type'' of
             Some (JString t) \<Rightarrow>
               if t = ''SET_SYMBOL'' then SetSymbolActionSchema (Some v)
               else if t = ''SET_TIMEFRAME'' then SetTimeframeActionSchema (Some v)
               else if t = ''LOAD_CANDLES'' then LoadCandlesActionSchema rel (Some v)
               else if t = ''ADD_INDICATOR'' then AddIndicatorActionSchema rel (Some v)
               else if t = ''UPDATE_INDICATOR_PARAMS''
                 then UpdateIndicatorParamsActionSchema rel (Some v)
               else if t = ''HIGHLIGHT_POINTS'' then HighlightPointsActionSchema rel (Some v)
               else if t = ''HIGHLIGHT_REGION'' then HighlightRegionActionSchema rel (Some v)
               else if t = ''ADD_ANNOTATION'' then AddAnnotationActionSchema rel (Some v)
               else if t = ''FOCUS_RANGE'' then FocusRangeActionSchema rel (Some v)
               else if t = ''CLEAR_HIGHLIGHTS'' then ClearHighlightsActionSchema (Some v)
               else if t = ''CLEAR_INDICATORS'' then ClearIndicatorsActionSchema (Some v)
               else None
           | _ \<Rightarrow> None)
      | _ \<Rightarrow> None)"

subsection \<open>The wire shapes of the specification\<close>

text \<open>
  The acceptance rules as the specification words them: the \<^verbatim>\<open>type\<close> field is one of
  the eleven tags, and the fields of that tag are present with their declared types,
  optional fields absent or of their type, enumerated fields within their value sets,
  numeric fields finite numbers. This is the reading \<open>AsWorded\<close>. The reading
  \<open>Under rel\<close> relaxes the rules by what the zod release \<open>rel\<close> lets pass: under release
  3 a numeric field may be infinite, under release 4 the entry of a record under the
  key \<^verbatim>\<open>__proto__\<close> is free.
\<close>

datatype reading = AsWorded | Under zod_release

definition command_tags :: "string list" where
  "command_tags =
     [''SET_SYMBOL'', ''SET_TIMEFRAME'', ''LOAD_CANDLES'', ''ADD_INDICATOR'',
      ''UPDATE_INDICATOR_PARAMS'', ''HIGHLIGHT_POINTS'', ''HIGHLIGHT_REGION'',
      ''ADD_ANNOTATION'', ''FOCUS_RANGE'', ''CLEAR_HIGHLIGHTS'', ''CLEAR_INDICATORS'']"

definition is_string :: "json option \<Rightarrow> bool" where
  "is_string v = (case v of Some (JString _) \<Rightarrow> True | _ \<Rightarrow> False)"

definition is_number :: "reading \<Rightarrow> json option \<Rightarrow> bool" where
  "is_number r v =
     (case v of
        Some (JNumber n) \<Rightarrow> (case n of Finite _ \<Rightarrow> True | _ \<Rightarrow> r = Under Zod3)
      | _ \<Rightarrow> False)"

definition is_one_of :: "string list \<Rightarrow> json option \<Rightarrow> bool" where
  "is_one_of vals v = (case v of Some (JString x) \<Rightarrow> x \<in> set vals | _ \<Rightarrow> False)"

definition absent_or :: "(json option \<Rightarrow> bool) \<Rightarrow> json option \<Rightarrow> bool" where
  "absent_or P v = (case v of None \<Rightarrow> True | Some _ \<Rightarrow> P v)"

definition is_number_map :: "reading \<Rightarrow> json option \<Rightarrow> bool" where
  "is_number_map r v =
     (case v of
        Some (JObject fs) \<Rightarrow>
          list_all (\<lambda>kx. (r = Under Zod4 \<and> fst kx = ''__proto__'')
                          \<or> is_number r (Some (snd kx))) fs
      | _ \<Rightarrow> False)"

definition is_pane :: "json option \<Rightarrow> bool" where
  "is_pane = is_one_of [''price'', ''indicator'']"

definition is_point :: "reading \<Rightarrow> json option \<Rightarrow> bool" where
  "is_point r v =
     (case v of Some (JObject fs) \<Rightarrow>
        is_number r (map_of fs ''time'') \<and> absent_or (is_number r) (map_of fs ''price'')
        \<and> absent_or is_pane (map_of fs ''pane'') \<and> absent_or is_string (map_of fs ''label'')
      | _ \<Rightarrow> False)"

definition is_point_list :: "reading \<Rightarrow> json option \<Rightarrow> bool" where
  "is_point_list r v =
     (case v of Some (JArray xs) \<Rightarrow> list_all (\<lambda>x. is_point r (Some x)) xs | _ \<Rightarrow> False)"

definition is_region :: "reading \<Rightarrow> json option \<Rightarrow> bool" where
  "is_region r v =
     (case v of Some (JObject fs) \<Rightarrow>
        is_number r (map_of fs ''fromTime'') \<and> is_number r (map_of fs ''toTime'')
        \<and> absent_or is_pane (map_of fs ''pane'') \<and> absent_or is_string (map_of fs ''label'')
      | _ \<Rightarrow> False)"

definition is_annotation :: "reading \<Rightarrow> json option \<Rightarrow> bool" where
  "is_annotation r v =
     (case v of Some (JObject fs) \<Rightarrow>
        is_number r (map_of fs ''time'') \<and> absent_or (is_number r) (map_of fs ''price'')
        \<and> is_string (map_of fs ''text'') \<and> absent_or is_pane (map_of fs ''pane'')
      | _ \<Rightarrow> False)"

definition is_range :: "reading \<Rightarrow> json option \<Rightarrow> bool" where
  "is_range r v =
     (case v of Some (JObject fs) \<Rightarrow>
        is_number r (map_of fs ''fromTime'') \<and> is_number r (map_of fs ''toTime'')
      | _ \<Rightarrow> False)"

definition fields_ok :: "reading \<Rightarrow> string \<Rightarrow> (string \<times> json) list \<Rightarrow> bool" where
  "fields_ok r t fs =
     (if t = ''SET_SYMBOL'' then is_string (map_of fs ''symbol'')
      else if t = ''SET_TIMEFRAME'' then is_one_of [''1h'', ''4h'', ''1d''] (map_of fs ''timeframe'')
      else if t = ''LOAD_CANDLES'' then
        is_string (map_of fs ''symbol'') \<and> is_string (map_of fs ''timeframe'')
        \<and> absent_or (is_number r) (map_of fs ''from'') \<and> absent_or (is_number r) (map_of fs ''to'')
      else if t = ''ADD_INDICATOR'' then
        is_one_of [''MACD'', ''RSI'', ''EMA''] (map_of fs ''indicator'')
        \<and> absent_or (is_number_map r) (map_of fs ''params'')
      else if t = ''UPDATE_INDICATOR_PARAMS'' then
        is_one_of [''MACD'', ''RSI'', ''EMA''] (map_of fs ''indicator'')
        \<and> is_number_map r (map_of fs ''params'')
      else if t = ''HIGHLIGHT_POINTS'' then is_point_list r (map_of fs ''points'')
      else if t = ''HIGHLIGHT_REGION'' then is_region r (map_of fs ''region'')
      else if t = ''ADD_ANNOTATION'' then is_annotation r (map_of fs ''annotation'')
      else if t = ''FOCUS_RANGE'' then is_range r (map_of fs ''range'')
      else t = ''CLEAR_HIGHLIGHTS'' \<or> t = ''CLEAR_INDICATORS'')"

definition conforms :: "reading \<Rightarrow> json \<Rightarrow> bool" where
  "conforms r v =
     (case v of
        JObject fs \<Rightarrow>
          (case map_of fs ''type'' of
             Some (JString t) \<Rightarrow> t \<in> set command_tags \<and> fields_ok r t fs
           | _ \<Rightarrow> False)
      | _ \<Rightarrow> False)"

section \<open>Visualization state and command execution engine\<close>

record Candle =
  c_time :: real
  c_open :: real
  c_high :: real
  c_low :: real
  c_close :: real
  c_volume :: "real option"

record IndicatorConfig =
  name :: IndicatorType
  params :: params
  visible :: bool

record ChartContextState =
  symbol :: string
  timeframe :: Timeframe
  candles :: "Candle list"
  indicators :: "IndicatorConfig list"
  visibleFrom :: "number option"
  visibleTo :: "number option"
  highlights :: "HighlightPoint list"
  annotations :: "Annotation list"
  isLoading :: bool

definition initialState :: ChartContextState where
  "initialState =
     \<lparr>symbol = ''BTCUSDT'', timeframe = TF_1d, candles = [], indicators = [],
      visibleFrom = None, visibleTo = None, highlights = [], annotations = [],
      isLoading = False\<rparr>"

text \<open>
  The internal actions of the reducer. Those that share a tag with a command carry a
  prime.
\<close>

datatype InternalAction =
    SET_SYMBOL' string
  | SET_TIMEFRAME' Timeframe
  | SET_CANDLES "Candle list"
  | SET_LOADING bool
  | ADD_INDICATOR' IndicatorConfig
  | UPDATE_INDICATOR_PARAMS' IndicatorType params
  | REMOVE_INDICATOR IndicatorType
  | CLEAR_INDICATORS'
  | ADD_HIGHLIGHTS "HighlightPoint list"
  | ADD_ANNOTATION' Annotation
  | CLEAR_HIGHLIGHTS'
  | SET_VISIBLE_RANGE number number

fun chartReducer :: "ChartContextState \<Rightarrow> InternalAction \<Rightarrow> ChartContextState" where
  "chartReducer state (SET_SYMBOL' symb) = state\<lparr>symbol := symb\<rparr>"
| "chartReducer state (SET_TIMEFRAME' tf) = state\<lparr>timeframe := tf\<rparr>"
| "chartReducer state (SET_CANDLES cs) = state\<lparr>candles := cs\<rparr>"
| "chartReducer state (SET_LOADING b) = state\<lparr>isLoading := b\<rparr>"
| "chartReducer state (ADD_INDICATOR' ind) =
     (if list_ex (\<lambda>i. name i = name ind) (indicators state)
      then state\<lparr>indicators := map (\<lambda>i. if name i = name ind then ind else i) (indicators state)\<rparr>
      else state\<lparr>indicators := indicators state @ [ind]\<rparr>)"
| "chartReducer state (UPDATE_INDICATOR_PARAMS' indicatorName ps) =
     state\<lparr>indicators :=
       map (\<lambda>i. if name i = indicatorName then i\<lparr>params := ps\<rparr> else i) (indicators state)\<rparr>"
| "chartReducer state (REMOVE_INDICATOR indicatorName) =
     state\<lparr>indicators := filter (\<lambda>i. name i \<noteq> indicatorName) (indicators state)\<rparr>"
| "chartReducer state CLEAR_INDICATORS' = state\<lparr>indicators := []\<rparr>"
| "chartReducer state (ADD_HIGHLIGHTS points) =
     state\<lparr>highlights := highlights state @ points\<rparr>"
| "chartReducer state (ADD_ANNOTATION' a) = state\<lparr>annotations := annotations state @ [a]\<rparr>"
| "chartReducer state CLEAR_HIGHLIGHTS' = state\<lparr>highlights := [], annotations := []\<rparr>"
| "chartReducer state (SET_VISIBLE_RANGE f t) =
     state\<lparr>visibleFrom := Some f, visibleTo := Some t\<rparr>"

text \<open>
  The candle-fetch collaborator: the answer to the \<open>n\<close>-th request of a session for a
  symbol and a timeframe, \<^term>\<open>None\<close> when the request fails (the network fails, the
  response is not \<^verbatim>\<open>ok\<close>, or its body does not parse). \<^verbatim>\<open>loadCandles\<close> is a callback
  that reads \<^verbatim>\<open>state.symbol\<close> and \<^verbatim>\<open>state.timeframe\<close> from the render that created it:
  these captured values are the closure. \<^verbatim>\<open>dispatch\<close> hands an internal action to the
  reducer; the engine state is the number of requests made so far and the chart state.
\<close>

type_synonym fetcher = "nat \<Rightarrow> string \<Rightarrow> string \<Rightarrow> Candle list option"

record closure =
  cl_symbol :: string
  cl_timeframe :: Timeframe

definition timeframe_string :: "Timeframe \<Rightarrow> string" where
  "timeframe_string tf = (case tf of TF_1h \<Rightarrow> ''1h'' | TF_4h \<Rightarrow> ''4h'' | TF_1d \<Rightarrow> ''1d'')"

text \<open>
  \<^verbatim>\<open>symbol || state.symbol\<close>: an absent or empty argument falls back to the captured
  value.
\<close>

definition or_else :: "string option \<Rightarrow> string \<Rightarrow> string" where
  "or_else arg fallback = (case arg of None \<Rightarrow> fallback | Some x \<Rightarrow> if x = [] then fallback else x)"

text \<open>
  The internal actions that one call of \<^verbatim>\<open>loadCandles\<close> dispatches, in order:
  \<^verbatim>\<open>SET_LOADING true\<close>, then \<^verbatim>\<open>SET_CANDLES\<close> when the request succeeds (a failure is caught
  and logged), then \<^verbatim>\<open>SET_LOADING false\<close> in the \<^verbatim>\<open>finally\<close> block.
\<close>

definition loadCandles_dispatches ::
  "fetcher \<Rightarrow> closure \<Rightarrow> string option \<Rightarrow> string option \<Rightarrow> nat \<Rightarrow> InternalAction list" where
  "loadCandles_dispatches fetch cl symb tf n =
     (let targetSymbol = or_else symb (cl_symbol cl);
          targetTimeframe = or_else tf (timeframe_string (cl_timeframe cl))
      in [SET_LOADING True]
         @ (case fetch n targetSymbol targetTimeframe of
              Some cs \<Rightarrow> [SET_CANDLES cs]
            | None \<Rightarrow> [])
         @ [SET_LOADING False])"

definition loadCandles ::
  "fetcher \<Rightarrow> closure \<Rightarrow> string option \<Rightarrow> string option
     \<Rightarrow> nat \<times> ChartContextState \<Rightarrow> nat \<times> ChartContextState" where
  "loadCandles fetch cl symb tf st =
     (Suc (fst st),
      foldl chartReducer (snd st) (loadCandles_dispatches fetch cl symb tf (fst st)))"

definition defaultParams :: "IndicatorType \<Rightarrow> params" where
  "defaultParams ind =
     (case ind of
        MACD \<Rightarrow> [(''fast'', Finite 12), (''slow'', Finite 26), (''signal'', Finite 9)]
      | RSI \<Rightarrow> [(''period'', Finite 14)]
      | EMA \<Rightarrow> [(''period'', Finite 20)])"

text \<open>
  \<^verbatim>\<open>action.region.label ? `Start: ${label}` : undefined\<close>: an absent or empty label
  gives no label.
\<close>

definition region_label :: "string \<Rightarrow> string option \<Rightarrow> string option" where
  "region_label prefix l =
     (case l of None \<Rightarrow> None | Some x \<Rightarrow> if x = [] then None else Some (prefix @ x))"

fun executeAction ::
  "fetcher \<Rightarrow> closure \<Rightarrow> ChartAction \<Rightarrow> nat \<times> ChartContextState \<Rightarrow> nat \<times> ChartContextState" where
  "executeAction fetch cl (SET_SYMBOL symb) st =
     loadCandles fetch cl (Some symb) None (fst st, chartReducer (snd st) (SET_SYMBOL' symb))"
| "executeAction fetch cl (SET_TIMEFRAME tf) st =
     loadCandles fetch cl None (Some (timeframe_string tf))
       (fst st, chartReducer (snd st) (SET_TIMEFRAME' tf))"
| "executeAction fetch cl (LOAD_CANDLES symb tf from to) st =
     loadCandles fetch cl (Some symb) (Some tf) st"
| "executeAction fetch cl (ADD_INDICATOR ind ps) st =
     (fst st, chartReducer (snd st)
        (ADD_INDICATOR' \<lparr>name = ind,
                         params = (case ps of Some p \<Rightarrow> p | None \<Rightarrow> defaultParams ind),
                         visible = True\<rparr>))"
| "executeAction fetch cl (UPDATE_INDICATOR_PARAMS ind ps) st =
     (fst st, chartReducer (snd st) (UPDATE_INDICATOR_PARAMS' ind ps))"
| "executeAction fetch cl (HIGHLIGHT_POINTS points) st =
     (fst st, chartReducer (snd st) (ADD_HIGHLIGHTS points))"
| "executeAction fetch cl (HIGHLIGHT_REGION region) st =
     (fst st, chartReducer (snd st)
        (ADD_HIGHLIGHTS
           [\<lparr>hp_time = rg_fromTime region, hp_price = None, hp_pane = rg_pane region,
             hp_label = region_label ''Start: '' (rg_label region)\<rparr>,
            \<lparr>hp_time = rg_toTime region, hp_price = None, hp_pane = rg_pane region,
             hp_label = region_label ''End: '' (rg_label region)\<rparr>]))"
| "executeAction fetch cl (ADD_ANNOTATION a) st =
     (fst st, chartReducer (snd st) (ADD_ANNOTATION' a))"
| "executeAction fetch cl (FOCUS_RANGE f t) st =
     (fst st, chartReducer (snd st) (SET_VISIBLE_RANGE f t))"
| "executeAction fetch cl CLEAR_HIGHLIGHTS st = (fst st, chartReducer (snd st) CLEAR_HIGHLIGHTS')"
| "executeAction fetch cl CLEAR_INDICATORS st = (fst st, chartReducer (snd st) CLEAR_INDICATORS')"

text \<open>\<^verbatim>\<open>for (const action of actions) await executeAction(action)\<close>.\<close>

definition executeActions ::
  "fetcher \<Rightarrow> closure \<Rightarrow> ChartAction list \<Rightarrow> nat \<times> ChartContextState \<Rightarrow> nat \<times> ChartContextState" where
  "executeActions fetch cl actions st = foldl (\<lambda>st action. executeAction fetch cl action st) st actions"

text \<open>
  The validation loop of \<^verbatim>\<open>getChatCompletion\<close>: each raw action is parsed inside its own
  \<^verbatim>\<open>try\<close>; a parsed action is pushed, a throw is caught and logged and the loop goes on.
\<close>

definition validate_step :: "zod_release \<Rightarrow> ChartAction list \<Rightarrow> json \<Rightarrow> ChartAction list" where
  "validate_step rel actions action =
     (case ChartActionSchema_parse rel action of
        Some validatedAction \<Rightarrow> actions @ [validatedAction]
      | None \<Rightarrow> actions)"

definition validate_actions :: "zod_release \<Rightarrow> json list \<Rightarrow> ChartAction list" where
  "validate_actions rel raw = foldl (validate_step rel) [] raw"


text \<open>The invariant of the indicator list: at most one configuration per name.\<close>

definition unique_names :: "ChartContextState \<Rightarrow> bool" where
  "unique_names s = distinct (map name (indicators s))"

text \<open>The commands that reload candles.\<close>

definition reloads :: "ChartAction \<Rightarrow> bool" where
  "reloads a = (case a of SET_SYMBOL _ \<Rightarrow> True | SET_TIMEFRAME _ \<Rightarrow> True
                | LOAD_CANDLES _ _ _ _ \<Rightarrow> True | _ \<Rightarrow> False)"

text \<open>
  Two collaborators for concrete runs: one whose every request fails, one whose every
  request succeeds with the given candles; and the closure of the first render, which
  captures the symbol and the timeframe of the initial state.
\<close>

definition fetch_fails :: fetcher where
  "fetch_fails n symb tf = None"

definition fetch_returns :: "Candle list \<Rightarrow> fetcher" where
  "fetch_returns cs n symb tf = Some cs"

definition initial_closure :: closure where
  "initial_closure = \<lparr>cl_symbol = symbol initialState, cl_timeframe = timeframe initialState\<rparr>"

section \<open>Properties of calculateEMA\<close>

lemma foldl_plus_sum_list: "foldl (+) a xs = a + sum_list (xs :: real list)"
  by (induction xs arbitrary: a) simp_all

lemma ema_at_warmup: "int i < p - 1 \<Longrightarrow> ema_at data p i = None"
  by (cases i) simp_all

lemma ema_at_None_iff: "ema_at data p i = None \<longleftrightarrow> int i < p - 1"
  by (cases i) simp_all

lemma ema_loop:
  "foldl (ema_step data p) (None, []) [0..<n]
     = ((case n of 0 \<Rightarrow> None | Suc k \<Rightarrow> ema_at data p k), map (ema_at data p) [0..<n])"
proof (induction n)
  case 0 show ?case by simp
next
  case (Suc n)
  show ?case
  proof (cases n)
    case 0
    then show ?thesis by (simp add: ema_step_def Let_def num_def)
  next
    case (Suc k)
    with Suc.IH show ?thesis by (simp add: ema_step_def Let_def ema_at_warmup)
  qed
qed

lemma calculateEMA_eq: "calculateEMA data p = map (ema_at data p) [0..<length data]"
  by (simp add: calculateEMA_def ema_loop)

lemma calculateEMA_length: "length (calculateEMA data p) = length data"
  by (simp add: calculateEMA_eq)

lemma calculateEMA_nth: "i < length data \<Longrightarrow> calculateEMA data p ! i = ema_at data p i"
  by (simp add: calculateEMA_eq)

lemma calculateEMA_None_iff:
  "i < length data \<Longrightarrow> calculateEMA data p ! i = None \<longleftrightarrow> int i < p - 1"
  by (simp add: calculateEMA_nth ema_at_None_iff)

lemma calculateEMA_short:
  "int (length data) < p \<Longrightarrow> calculateEMA data p = replicate (length data) None"
  by (rule nth_equalityI) (simp_all add: calculateEMA_length calculateEMA_nth ema_at_warmup)

lemma ema_at_seed:
  "1 \<le> p \<Longrightarrow> ema_at data p (nat (p - 1)) = Some (sum_list (take (nat p) data) / real_of_int p)"
  by (cases "nat (p - 1)") (auto simp: slice0_def foldl_plus_sum_list)

lemma ema_at_rec:
  assumes "1 \<le> p" and "p - 1 < int i"
  shows "\<exists>prev. ema_at data p (i - 1) = Some prev \<and>
           ema_at data p i = Some ((data ! i - prev) * (2 / (real_of_int p + 1)) + prev)"
proof (cases i)
  case 0
  with assms show ?thesis by simp
next
  case (Suc k)
  with assms have "\<not> int k < p - 1" by simp
  then obtain prev where prev: "ema_at data p k = Some prev"
    using ema_at_None_iff[of data p k] by (cases "ema_at data p k") simp_all
  with Suc assms show ?thesis by (simp add: num_def)
qed

text \<open>
  C2. For a period \<open>p\<close> with \<open>1 \<le> p \<le> length data\<close>, \<^const>\<open>calculateEMA\<close> is undefined
  below index \<open>p - 1\<close>, is the arithmetic mean of the first \<open>p\<close> values at index \<open>p - 1\<close>,
  and at every later index \<open>i\<close> is \<open>(data[i] - ema[i-1]) * (2/(p+1)) + ema[i-1]\<close>; when
  \<open>length data < p\<close> the whole output is undefined. On the closes 1..10 with \<open>p = 3\<close> the
  first four entries are undefined, undefined, 2 and 3.
\<close>

theorem C2_calculateEMA_values:
  assumes "1 \<le> p"
  shows "(int (length data) < p \<longrightarrow> calculateEMA data p = replicate (length data) None)
    \<and> (p \<le> int (length data) \<longrightarrow>
          (\<forall>i < length data. int i < p - 1 \<longrightarrow> calculateEMA data p ! i = None)
        \<and> calculateEMA data p ! nat (p - 1)
            = Some (sum_list (take (nat p) data) / real_of_int p)
        \<and> (\<forall>i < length data. p - 1 < int i \<longrightarrow>
              (\<exists>prev. calculateEMA data p ! (i - 1) = Some prev \<and>
                 calculateEMA data p ! i
                   = Some ((data ! i - prev) * (2 / (real_of_int p + 1)) + prev))))
    \<and> take 4 (calculateEMA [1, 2, 3, 4, 5, 6, 7, 8, 9, 10] 3) = [None, None, Some 2, Some 3]"
proof (intro conjI impI allI)
  assume "int (length data) < p"
  then show "calculateEMA data p = replicate (length data) None"
    by (rule calculateEMA_short)
next
  fix i assume "i < length data" "int i < p - 1"
  then show "calculateEMA data p ! i = None"
    by (simp add: calculateEMA_None_iff)
next
  assume "p \<le> int (length data)"
  with assms have "nat (p - 1) < length data" by simp
  then show "calculateEMA data p ! nat (p - 1)
      = Some (sum_list (take (nat p) data) / real_of_int p)"
    using assms by (simp add: calculateEMA_nth ema_at_seed)
next
  fix i assume i: "i < length data" "p - 1 < int i"
  then have "i - 1 < length data" by simp
  with i show "\<exists>prev. calculateEMA data p ! (i - 1) = Some prev \<and>
      calculateEMA data p ! i = Some ((data ! i - prev) * (2 / (real_of_int p + 1)) + prev)"
    using ema_at_rec[OF assms i(2), of data] by (simp add: calculateEMA_nth)
next
  show "take 4 (calculateEMA [1, 2, 3, 4, 5, 6, 7, 8, 9, 10] 3) = [None, None, Some 2, Some 3]"
    by (simp add: calculateEMA_eq upt_rec slice0_def num_def eval_nat_numeral)
qed

theorem C2_calculateEMA_values_witness:
  "(1::int) \<le> 3 \<and> 3 \<le> int (length [2, 4, 6, 8 :: real])
   \<and> calculateEMA [2, 4, 6, 8] 3 ! 1 = None
   \<and> calculateEMA [2, 4, 6, 8] 3 ! 2 = Some 4
   \<and> calculateEMA [2, 4, 6, 8] 3 ! 3 = Some 6"
proof -
  let ?d = "[2, 4, 6, 8 :: real]"
  have p: "(1::int) \<le> 3" by simp
  note c = C2_calculateEMA_values[OF p, of ?d]
  have n1: "calculateEMA ?d 3 ! 1 = None" using c by simp
  have n2: "calculateEMA ?d 3 ! 2 = Some 4" using c by (simp add: eval_nat_numeral)
  have rec: "\<And>i. i < 4 \<Longrightarrow> 2 < i \<Longrightarrow> \<exists>prev. calculateEMA ?d 3 ! (i - 1) = Some prev \<and>
      calculateEMA ?d 3 ! i = Some ((?d ! i - prev) * (2 / (real_of_int 3 + 1)) + prev)"
    using c by simp
  have "\<exists>prev. calculateEMA ?d 3 ! (3 - 1) = Some prev \<and>
      calculateEMA ?d 3 ! 3 = Some ((?d ! 3 - prev) * (2 / (real_of_int 3 + 1)) + prev)"
    by (rule rec) simp_all
  with n2 have n3: "calculateEMA ?d 3 ! 3 = Some 6" by (simp add: eval_nat_numeral)
  show ?thesis using n1 n2 n3 by simp
qed

section \<open>Properties of calculateMACD\<close>

text \<open>Series whose undefined entries are exactly the first \<open>k\<close>.\<close>

lemma filter_defined_drop:
  assumes "\<forall>i < length xs. (xs ! i = None) = (i < k)"
  shows "filter (\<lambda>v. v \<noteq> None) xs = drop k (xs :: series)"
proof -
  have a: "filter (\<lambda>v. v \<noteq> None) (take k xs) = []"
    using assms by (auto simp: filter_empty_conv in_set_conv_nth)
  have "xs ! (k + i) \<noteq> None" if "i < length xs - k" for i
  proof -
    from that have "k + i < length xs" by simp
    with assms have "(xs ! (k + i) = None) = (k + i < k)" by blast
    then show ?thesis by simp
  qed
  then have b: "filter (\<lambda>v. v \<noteq> None) (drop k xs) = drop k xs"
    by (auto simp: filter_id_conv in_set_conv_nth)
  have "filter (\<lambda>v. v \<noteq> None) xs = filter (\<lambda>v. v \<noteq> None) (take k xs @ drop k xs)"
    by simp
  also have "\<dots> = drop k xs" unfolding filter_append a b by simp
  finally show ?thesis .
qed

lemma first_defined_eq:
  assumes "\<forall>i < length xs. (xs ! i = None) = (i < k)" and "k \<le> length xs"
  shows "first_defined xs = k"
proof -
  have "takeWhile (\<lambda>v. v = None) xs = take k xs"
    using assms by (intro takeWhile_eq_take_P_nth) auto
  with assms(2) show ?thesis by (simp add: first_defined_def)
qed

lemma macd_diff_length: "length (macd_diff xs ys) = length xs"
  by (simp add: macd_diff_def)

lemma macd_diff_nth:
  "i < length xs \<Longrightarrow> macd_diff xs ys ! i =
     (case xs ! i of None \<Rightarrow> None
      | Some a \<Rightarrow> (case ys ! i of None \<Rightarrow> None | Some b \<Rightarrow> Some (a - b)))"
  by (simp add: macd_diff_def split: option.splits)

lemma macd_diff_None_iff:
  "i < length xs \<Longrightarrow> macd_diff xs ys ! i = None \<longleftrightarrow> xs ! i = None \<or> ys ! i = None"
  by (simp add: macd_diff_nth split: option.splits)

lemma macd_line_None_iff:
  assumes "i < length data"
  shows "macd_diff (calculateEMA data fast) (calculateEMA data slow) ! i = None
           \<longleftrightarrow> i < macd_warmup (length data) fast slow"
  using assms
  by (auto simp: macd_diff_None_iff calculateEMA_length calculateEMA_None_iff macd_warmup_def)

lemma signal_loop:
  assumes "\<forall>i < length m. (m ! i = None) = (i < k)" and "n \<le> length m"
  shows "foldl (signal_step m sE) (0, []) [0..<n]
     = (n - k, map (\<lambda>i. if i < k then None
                          else if i - k < length sE then sE ! (i - k) else None) [0..<n])"
  using assms(2)
proof (induction n)
  case 0 show ?case by simp
next
  case (Suc n)
  then have n: "n < length m" by simp
  with assms(1) have "(m ! n = None) = (n < k)" by simp
  with Suc show ?case by (simp add: signal_step_def Let_def Suc_diff_le)
qed

lemma signal_line_eq:
  assumes "\<forall>i < length m. (m ! i = None) = (i < k)" and "k \<le> length m"
    and "length sE = length m - k"
  shows "snd (foldl (signal_step m sE) (0, []) [0..<length m]) = replicate k None @ sE"
proof (rule nth_equalityI)
  show "length (snd (foldl (signal_step m sE) (0, []) [0..<length m]))
      = length (replicate k None @ sE)"
    using assms(2,3) by (simp add: signal_loop[OF assms(1)])
next
  fix i assume "i < length (snd (foldl (signal_step m sE) (0, []) [0..<length m]))"
  then have i: "i < length m" by (simp add: signal_loop[OF assms(1)])
  then have "\<not> i < k \<Longrightarrow> i - k < length m - k" by arith
  with i show "snd (foldl (signal_step m sE) (0, []) [0..<length m]) ! i
      = (replicate k None @ sE) ! i"
    using assms(2,3) by (simp add: signal_loop[OF assms(1)] nth_append)
qed

lemma calculateMACD_macdLine:
  "macdLine (calculateMACD data fast slow signal)
     = macd_diff (calculateEMA data fast) (calculateEMA data slow)"
  by (simp add: calculateMACD_def Let_def)

lemma calculateMACD_histogram:
  "histogram (calculateMACD data fast slow signal)
     = macd_diff (macdLine (calculateMACD data fast slow signal))
                 (signalLine (calculateMACD data fast slow signal))"
  by (simp add: calculateMACD_def Let_def)

lemma calculateMACD_macdLine_length:
  "length (macdLine (calculateMACD data fast slow signal)) = length data"
  by (simp add: calculateMACD_macdLine macd_diff_length calculateEMA_length)

lemma calculateMACD_first_defined:
  "first_defined (macdLine (calculateMACD data fast slow signal))
     = macd_warmup (length data) fast slow"
proof (rule first_defined_eq)
  show "\<forall>i<length (macdLine (calculateMACD data fast slow signal)).
       (macdLine (calculateMACD data fast slow signal) ! i = None)
       = (i < macd_warmup (length data) fast slow)"
    by (simp add: calculateMACD_macdLine_length)
       (simp add: calculateMACD_macdLine macd_line_None_iff)
  show "macd_warmup (length data) fast slow
      \<le> length (macdLine (calculateMACD data fast slow signal))"
    by (simp add: calculateMACD_macdLine_length macd_warmup_def)
qed

lemma calculateMACD_signalLine:
  "signalLine (calculateMACD data fast slow signal)
     = replicate (macd_warmup (length data) fast slow) None
       @ calculateEMA (map the (drop (macd_warmup (length data) fast slow)
                                  (macdLine (calculateMACD data fast slow signal)))) signal"
proof -
  let ?k = "macd_warmup (length data) fast slow"
  let ?m = "macd_diff (calculateEMA data fast) (calculateEMA data slow)"
  have len: "length ?m = length data" by (simp add: macd_diff_length calculateEMA_length)
  have none: "\<forall>i < length ?m. (?m ! i = None) = (i < ?k)"
    by (simp add: len macd_line_None_iff)
  have k: "?k \<le> length ?m" by (simp add: len macd_warmup_def)
  have valid: "filter (\<lambda>v. v \<noteq> None) ?m = drop ?k ?m"
    by (rule filter_defined_drop[OF none])
  have "snd (foldl (signal_step ?m (calculateEMA (map the (drop ?k ?m)) signal)) (0, [])
               [0..<length ?m])
      = replicate ?k None @ calculateEMA (map the (drop ?k ?m)) signal"
    by (rule signal_line_eq[OF none k]) (simp add: calculateEMA_length)
  then show ?thesis
    unfolding calculateMACD_def Let_def valid by simp
qed

lemma calculateMACD_signalLine_length:
  "length (signalLine (calculateMACD data fast slow signal)) = length data"
  by (simp add: calculateMACD_signalLine calculateEMA_length calculateMACD_macdLine_length
        macd_warmup_def)

lemma calculateMACD_histogram_length:
  "length (histogram (calculateMACD data fast slow signal)) = length data"
  by (simp add: calculateMACD_histogram macd_diff_length calculateMACD_macdLine_length)

lemma calculateMACD_signalLine_None_iff:
  assumes "i < length data" and "1 \<le> signal"
  shows "signalLine (calculateMACD data fast slow signal) ! i = None
     \<longleftrightarrow> int i < int (macd_warmup (length data) fast slow) + signal - 1"
proof -
  let ?k = "macd_warmup (length data) fast slow"
  let ?vs = "map the (drop ?k (macdLine (calculateMACD data fast slow signal)))"
  have lvs: "length ?vs = length data - ?k" by (simp add: calculateMACD_macdLine_length)
  show ?thesis
  proof (cases "i < ?k")
    case True
    with assms(2) show ?thesis by (simp add: calculateMACD_signalLine nth_append)
  next
    case False
    with assms(1) have "i - ?k < length ?vs" using lvs by simp
    then have "calculateEMA ?vs signal ! (i - ?k) = None \<longleftrightarrow> int (i - ?k) < signal - 1"
      by (rule calculateEMA_None_iff)
    with False show ?thesis
      by (simp add: calculateMACD_signalLine nth_append) linarith
  qed
qed

text \<open>
  C3. In \<^const>\<open>calculateMACD\<close> the MACD line at index \<open>i\<close> is \<open>fastEMA[i] - slowEMA[i]\<close>
  where both are defined and undefined otherwise. With \<open>k\<close> the index of the first defined
  MACD value, the defined MACD values are exactly those from \<open>k\<close> on, and the signal line
  is the EMA of period \<open>signal\<close> of these values, re-indexed from \<open>k\<close> and put back behind
  \<open>k\<close> undefined entries. So, for a period \<open>signal \<ge> 1\<close>, the signal line is undefined
  exactly below index \<open>k + signal - 1\<close>: its first defined index is \<open>k + signal - 1\<close>, not
  \<open>signal - 1\<close>. The histogram at \<open>i\<close> is \<open>macdLine[i] - signalLine[i]\<close> where both are
  defined and undefined otherwise.
\<close>

theorem C3_calculateMACD_lines:
  assumes "r = calculateMACD data fast slow signal"
    and "k = first_defined (macdLine r)"
  shows "(\<forall>i < length data. macdLine r ! i =
            (case calculateEMA data fast ! i of None \<Rightarrow> None
             | Some f \<Rightarrow> (case calculateEMA data slow ! i of None \<Rightarrow> None
                          | Some s \<Rightarrow> Some (f - s))))
    \<and> (\<forall>i < length data. (macdLine r ! i = None) = (i < k))
    \<and> signalLine r = replicate k None @ calculateEMA (map the (drop k (macdLine r))) signal
    \<and> (1 \<le> signal \<longrightarrow>
          (\<forall>i < length data. (signalLine r ! i = None) = (int i < int k + signal - 1)))
    \<and> (1 \<le> signal \<and> int k + signal \<le> int (length data) \<longrightarrow>
          first_defined (signalLine r) = nat (int k + signal - 1))
    \<and> (\<forall>i < length data. histogram r ! i =
            (case macdLine r ! i of None \<Rightarrow> None
             | Some m \<Rightarrow> (case signalLine r ! i of None \<Rightarrow> None
                          | Some s \<Rightarrow> Some (m - s))))"
proof -
  have k: "k = macd_warmup (length data) fast slow"
    unfolding assms by (rule calculateMACD_first_defined)
  have len: "length (macdLine r) = length data" "length (signalLine r) = length data"
    unfolding assms(1)
    by (rule calculateMACD_macdLine_length, rule calculateMACD_signalLine_length)
  have 1: "\<forall>i < length data. macdLine r ! i =
            (case calculateEMA data fast ! i of None \<Rightarrow> None
             | Some f \<Rightarrow> (case calculateEMA data slow ! i of None \<Rightarrow> None
                          | Some s \<Rightarrow> Some (f - s)))"
    unfolding assms(1) calculateMACD_macdLine
    by (simp add: macd_diff_nth calculateEMA_length)
  have 2: "\<forall>i < length data. (macdLine r ! i = None) = (i < k)"
    unfolding assms(1) calculateMACD_macdLine k by (simp add: macd_line_None_iff)
  have 3: "signalLine r = replicate k None @ calculateEMA (map the (drop k (macdLine r))) signal"
    unfolding k assms(1) by (rule calculateMACD_signalLine)
  have 4: "\<forall>i < length data. (signalLine r ! i = None) = (int i < int k + signal - 1)"
    if "1 \<le> signal"
    unfolding k assms(1) using that by (simp add: calculateMACD_signalLine_None_iff)
  have 5: "first_defined (signalLine r) = nat (int k + signal - 1)"
    if "1 \<le> signal \<and> int k + signal \<le> int (length data)"
  proof (rule first_defined_eq)
    show "\<forall>i<length (signalLine r). (signalLine r ! i = None) = (i < nat (int k + signal - 1))"
      using 4 that by (auto simp: len)
    show "nat (int k + signal - 1) \<le> length (signalLine r)"
      unfolding len using that by linarith
  qed
  have 6: "\<forall>i < length data. histogram r ! i =
            (case macdLine r ! i of None \<Rightarrow> None
             | Some m \<Rightarrow> (case signalLine r ! i of None \<Rightarrow> None
                          | Some s \<Rightarrow> Some (m - s)))"
    using len(1) unfolding assms(1) calculateMACD_histogram
    by (simp add: macd_diff_nth)
  from 1 2 3 4 5 6 show ?thesis by blast
qed

theorem C3_calculateMACD_lines_witness:
  "(1::int) \<le> 2 \<and> int 2 + 2 \<le> int (length [1, 2, 4, 8, 16, 32, 64, 128 :: real])
   \<and> first_defined (macdLine (calculateMACD [1, 2, 4, 8, 16, 32, 64, 128] 2 3 2)) = 2
   \<and> first_defined (signalLine (calculateMACD [1, 2, 4, 8, 16, 32, 64, 128] 2 3 2)) = 3
   \<and> signalLine (calculateMACD [1, 2, 4, 8, 16, 32, 64, 128] 2 3 2) ! 2 = None
   \<and> signalLine (calculateMACD [1, 2, 4, 8, 16, 32, 64, 128] 2 3 2) ! 3 \<noteq> None"
proof -
  let ?d = "[1, 2, 4, 8, 16, 32, 64, 128 :: real]"
  have k: "first_defined (macdLine (calculateMACD ?d 2 3 2)) = 2"
    by (simp add: calculateMACD_first_defined macd_warmup_def)
  note c = C3_calculateMACD_lines[OF refl refl, of ?d 2 3 2, unfolded k]
  have s: "(1::int) \<le> 2" by simp
  from c s have none: "\<forall>i < length ?d.
      (signalLine (calculateMACD ?d 2 3 2) ! i = None) = (int i < int 2 + 2 - 1)"
    by blast
  have n2: "signalLine (calculateMACD ?d 2 3 2) ! 2 = None"
    using none by simp
  have n3: "signalLine (calculateMACD ?d 2 3 2) ! 3 \<noteq> None"
    using none by simp
  have "(1::int) \<le> 2 \<and> int 2 + 2 \<le> int (length ?d)" by simp
  with c have "first_defined (signalLine (calculateMACD ?d 2 3 2)) = nat (int 2 + 2 - 1)"
    by blast
  then show ?thesis using k n2 n3 by simp
qed

section \<open>Properties of calculateRSI\<close>

lemma price_changes_length: "length (price_changes data) = length data - 1"
  by (simp add: price_changes_def)

lemma rsi_seed_loop:
  "m \<le> length ch \<Longrightarrow>
   foldl (rsi_seed_step ch) (0, 0, [None]) [0..<m]
     = ((\<Sum>c\<leftarrow>take m ch. gain_of c), (\<Sum>c\<leftarrow>take m ch. loss_of c), replicate (Suc m) None)"
proof (induction m)
  case 0 show ?case by simp
next
  case (Suc m)
  then have m: "m < length ch" by simp
  have rep: "replicate m None @ [None :: real option] = None # replicate m None"
    by (simp add: replicate_append_same)
  from Suc m show ?case
    by (simp add: rsi_seed_step_def take_Suc_conv_app_nth gain_of_def loss_of_def rep)
qed

lemma rsi_smooth_loop:
  assumes "0 \<le> p"
  shows "foldl (rsi_smooth_step ch p) (g0, l0, res) [p + 1 .. p + int j]
     = (fst (loop_avgs ch p (g0, l0) j), snd (loop_avgs ch p (g0, l0) j),
        res @ map (\<lambda>i. case loop_avgs ch p (g0, l0) (Suc i) of (g, l) \<Rightarrow> rsi_value g l) [0..<j])"
proof (induction j)
  case 0 show ?case by simp
next
  case (Suc j)
  have split: "[p + 1 .. p + int (Suc j)] = [p + 1 .. p + int j] @ [p + 1 + int j]"
    using upto_rec2[of "p + 1" "p + int (Suc j)"] by (simp add: add.commute add.left_commute)
  have idx: "nat (p + 1 + int j) = nat p + 1 + j" using assms by simp
  have nonneg: "0 \<le> p + 1 + int j" using assms by simp
  show ?case
    unfolding split foldl_append Suc.IH
    by (simp add: rsi_smooth_step_def Let_def idx nonneg gain_of_def loss_of_def
          split: prod.splits)
qed

lemma calculateRSI_short:
  "int (length data) < p + 1 \<Longrightarrow> calculateRSI data p = replicate (length data) None"
  by (simp add: calculateRSI_def map_replicate_const)

lemma calculateRSI_long:
  assumes "0 \<le> p" and "p + 1 \<le> int (length data)"
  shows "calculateRSI data p
     = replicate (nat p + 1) None
       @ map (\<lambda>j. case loop_avgs (price_changes data) p
                          (seed_gain (price_changes data) p, seed_loss (price_changes data) p) j
                   of (g, l) \<Rightarrow> rsi_value g l)
             [0..<Suc (length data - (nat p + 2))]"
proof -
  let ?ch = "price_changes data"
  let ?J = "length data - (nat p + 2)"
  let ?seed = "(seed_gain ?ch p, seed_loss ?ch p)"
  have np: "nat p \<le> length ?ch" using assms by (simp add: price_changes_length)
  have range: "[p + 1 .. int (length ?ch) - 1] = [p + 1 .. p + int ?J]"
  proof (cases "nat p + 2 \<le> length data")
    case True
    then have "int (length ?ch) - 1 = p + int ?J"
      using assms by (simp add: price_changes_length)
    then show ?thesis by simp
  next
    case False
    then have "int (length ?ch) - 1 < p + 1" "?J = 0"
      using assms by (simp_all add: price_changes_length)
    then show ?thesis by simp
  qed
  have "calculateRSI data p
      = replicate (Suc (nat p)) None @ [rsi_value (seed_gain ?ch p) (seed_loss ?ch p)]
        @ map (\<lambda>i. case loop_avgs ?ch p ?seed (Suc i) of (g, l) \<Rightarrow> rsi_value g l) [0..<?J]"
    using assms
    by (simp add: calculateRSI_def Let_def rsi_seed_loop[OF np] range
          rsi_smooth_loop[OF assms(1)] seed_gain_def seed_loss_def)
  also have "[rsi_value (seed_gain ?ch p) (seed_loss ?ch p)]
        @ map (\<lambda>i. case loop_avgs ?ch p ?seed (Suc i) of (g, l) \<Rightarrow> rsi_value g l) [0..<?J]
      = map (\<lambda>j. case loop_avgs ?ch p ?seed j of (g, l) \<Rightarrow> rsi_value g l) [0..<Suc ?J]"
    by (simp add: upt_conv_Cons map_Suc_upt[symmetric] del: upt_Suc)
  finally show ?thesis by simp
qed

lemma calculateRSI_length:
  assumes "0 \<le> p" and "p + 1 \<le> int (length data)"
  shows "length (calculateRSI data p) = max (length data) (nat p + 2)"
  using assms by (simp add: calculateRSI_long[OF assms])

lemma rsi_value_range:
  assumes "0 \<le> g" and "0 \<le> l" and "rsi_value g l = Some x"
  shows "0 \<le> x \<and> x \<le> 100"
proof (cases "l = 0")
  case True
  with assms(3) show ?thesis by (simp add: rsi_value_def)
next
  case False
  with assms(2) have l: "0 < l" by simp
  with assms(1) have rs: "0 \<le> g / l" by simp
  then have "0 < 1 + g / l" by simp
  moreover from rs have "100 / (1 + g / l) \<le> 100 / 1"
    by (intro divide_left_mono) simp_all
  moreover from rs have "0 \<le> 100 / (1 + g / l)" by simp
  moreover from False assms(3) have "x = 100 - 100 / (1 + g / l)"
    by (simp add: rsi_value_def Let_def)
  ultimately show ?thesis by simp
qed

lemma gain_of_nonneg: "0 \<le> gain_of c"
  by (simp add: gain_of_def)

lemma loss_of_nonneg: "0 \<le> loss_of c"
  by (simp add: loss_of_def)

lemma sum_list_map_nonneg: "(\<And>x. 0 \<le> f x) \<Longrightarrow> (0::real) \<le> (\<Sum>x\<leftarrow>xs. f x)"
  by (induction xs) simp_all

lemma seed_nonneg:
  assumes "1 \<le> p"
  shows "0 \<le> seed_gain ch p" and "0 \<le> seed_loss ch p"
proof -
  have "0 \<le> (\<Sum>c\<leftarrow>take (nat p) ch. gain_of c)" "0 \<le> (\<Sum>c\<leftarrow>take (nat p) ch. loss_of c)"
    by (rule sum_list_map_nonneg, rule gain_of_nonneg)
       (rule sum_list_map_nonneg, rule loss_of_nonneg)
  with assms show "0 \<le> seed_gain ch p" and "0 \<le> seed_loss ch p"
    by (simp_all add: seed_gain_def seed_loss_def)
qed

lemma loop_avgs_nonneg:
  assumes "1 \<le> p" and "0 \<le> fst seed" and "0 \<le> snd seed"
  shows "0 \<le> fst (loop_avgs ch p seed j) \<and> 0 \<le> snd (loop_avgs ch p seed j)"
proof (induction j)
  case 0 with assms show ?case by simp
next
  case (Suc j)
  obtain g l where gl: "loop_avgs ch p seed j = (g, l)" by (cases "loop_avgs ch p seed j")
  with Suc have "0 \<le> g" "0 \<le> l" by simp_all
  moreover from assms(1) have "0 \<le> real_of_int p - 1" "0 < real_of_int p" by simp_all
  ultimately show ?case
    by (simp add: gl gain_of_nonneg loss_of_nonneg)
qed

lemma price_changes_constant:
  assumes "\<forall>i < length data. data ! i = c"
  shows "price_changes data = replicate (length data - 1) 0"
proof (rule nth_equalityI)
  show "length (price_changes data) = length (replicate (length data - 1) (0::real))"
    by (simp add: price_changes_length)
next
  fix i assume "i < length (price_changes data)"
  then have i: "i < length data - 1" by (simp add: price_changes_length)
  then have "data ! (Suc i) = c" "data ! i = c" using assms by simp_all
  with i show "price_changes data ! i = replicate (length data - 1) 0 ! i"
    by (simp add: price_changes_def)
qed

lemma sum_list_zero: "(\<forall>x \<in> set xs. f x = (0::real)) \<Longrightarrow> (\<Sum>x\<leftarrow>xs. f x) = 0"
  by (induction xs) simp_all

lemma seed_constant:
  "seed_gain (replicate n 0) p = 0" "seed_loss (replicate n 0) p = 0"
proof -
  have "(\<Sum>c\<leftarrow>take (nat p) (replicate n 0). gain_of c) = 0"
    by (rule sum_list_zero) (auto simp: gain_of_def dest: in_set_takeD)
  moreover have "(\<Sum>c\<leftarrow>take (nat p) (replicate n 0). loss_of c) = 0"
    by (rule sum_list_zero) (auto simp: loss_of_def dest: in_set_takeD)
  ultimately show "seed_gain (replicate n 0) p = 0" "seed_loss (replicate n 0) p = 0"
    by (simp_all add: seed_gain_def seed_loss_def)
qed

lemma loop_avgs_constant:
  assumes "j = 0 \<or> nat p + 1 + j \<le> n"
  shows "loop_avgs (replicate n 0) p (0, 0) j = (0, 0)"
  using assms by (induction j) (simp_all add: gain_of_def loss_of_def)

lemma warmup_shape_nth:
  assumes "r = replicate m None @ map F [0..<Suc J]"
  shows "i < m \<Longrightarrow> r ! i = None" and "j \<le> J \<Longrightarrow> r ! (m + j) = F j"
proof -
  show "r ! i = None" if "i < m"
    using that unfolding assms by (simp add: nth_append del: upt_Suc)
  show "r ! (m + j) = F j" if "j \<le> J"
  proof -
    have "r ! (m + j) = map F [0..<Suc J] ! j"
      unfolding assms using nth_append_length_plus[of "replicate m None" "map F [0..<Suc J]" j]
      by (simp del: upt_Suc)
    also have "\<dots> = F j" using that by (simp del: upt_Suc)
    finally show ?thesis .
  qed
qed

lemma calculateRSI_defined:
  assumes "1 \<le> p" and "Some x \<in> set (calculateRSI data p)"
  obtains j where "j < Suc (length data - (nat p + 2))"
    and "p + 1 \<le> int (length data)"
    and "(case loop_avgs (price_changes data) p
            (seed_gain (price_changes data) p, seed_loss (price_changes data) p) j
          of (g, l) \<Rightarrow> rsi_value g l) = Some x"
proof (cases "int (length data) < p + 1")
  case True
  with assms(2) show ?thesis by (simp add: calculateRSI_short)
next
  case False
  then have long: "p + 1 \<le> int (length data)" by simp
  from assms(1) have p0: "0 \<le> p" by simp
  let ?F = "\<lambda>j. case loop_avgs (price_changes data) p
            (seed_gain (price_changes data) p, seed_loss (price_changes data) p) j
          of (g, l) \<Rightarrow> rsi_value g l"
  let ?J = "length data - (nat p + 2)"
  from assms(2) have "Some x \<in> set (replicate (nat p + 1) None @ map ?F [0..<Suc ?J])"
    unfolding calculateRSI_long[OF p0 long] .
  then have "Some x \<in> set (map ?F [0..<Suc ?J])"
    by (auto simp del: upt_Suc)
  then obtain j where "j < Suc ?J" "?F j = Some x"
    by (auto simp del: upt_Suc)
  with that long show ?thesis by blast
qed

text \<open>
  What \<^const>\<open>calculateRSI\<close> computes for a period \<open>p \<ge> 1\<close>. A short input is undefined
  throughout. Otherwise the entries \<open>0..p\<close> are undefined, the entry \<open>p + 1\<close> is the value
  of the seed averages, and the entry \<open>p + 2 + j\<close> is the value of the loop's averages
  after \<open>j + 1\<close> iterations. Every defined entry lies in \<open>[0, 100]\<close>, and on a constant
  series every defined entry is 100.
\<close>

lemma calculateRSI_code_values:
  assumes "1 \<le> p" and "ch = price_changes data"
  shows "(int (length data) < p + 1 \<longrightarrow> calculateRSI data p = replicate (length data) None)
    \<and> (p + 1 \<le> int (length data) \<longrightarrow>
          (\<forall>i \<le> nat p. calculateRSI data p ! i = None)
        \<and> calculateRSI data p ! (nat p + 1)
            = (if seed_loss ch p = 0 then Some 100
               else Some (100 - 100 / (1 + seed_gain ch p / seed_loss ch p)))
        \<and> (\<forall>j. nat p + 2 + j < length data \<longrightarrow>
              calculateRSI data p ! (nat p + 2 + j)
                = (case loop_avgs ch p (seed_gain ch p, seed_loss ch p) (Suc j) of (g, l) \<Rightarrow>
                     if l = 0 then Some 100 else Some (100 - 100 / (1 + g / l)))))
    \<and> (\<forall>x. Some x \<in> set (calculateRSI data p) \<longrightarrow> 0 \<le> x \<and> x \<le> 100)
    \<and> ((\<forall>i < length data. data ! i = c) \<longrightarrow>
          (\<forall>x. Some x \<in> set (calculateRSI data p) \<longrightarrow> x = 100))
    \<and> ((\<forall>i < length data. data ! i = c) \<and> p + 1 \<le> int (length data) \<longrightarrow>
          calculateRSI data p ! (nat p + 1) = Some 100)"
proof -
  from assms(1) have p0: "0 \<le> p" by simp
  let ?seed = "(seed_gain ch p, seed_loss ch p)"
  let ?F = "\<lambda>j. case loop_avgs ch p ?seed j of (g, l) \<Rightarrow> rsi_value g l"
  have short: "calculateRSI data p = replicate (length data) None"
    if "int (length data) < p + 1"
    using that by (rule calculateRSI_short)
  have long: "calculateRSI data p
      = replicate (nat p + 1) None @ map ?F [0..<Suc (length data - (nat p + 2))]"
    if "p + 1 \<le> int (length data)"
    unfolding assms(2) using that by (rule calculateRSI_long[OF p0])
  have warm: "\<forall>i \<le> nat p. calculateRSI data p ! i = None" if l: "p + 1 \<le> int (length data)"
    using warmup_shape_nth(1)[OF long[OF l]] by simp
  have first: "calculateRSI data p ! (nat p + 1)
            = (if seed_loss ch p = 0 then Some 100
               else Some (100 - 100 / (1 + seed_gain ch p / seed_loss ch p)))"
    if l: "p + 1 \<le> int (length data)"
    using warmup_shape_nth(2)[OF long[OF l], of 0]
    by (simp add: rsi_value_def Let_def)
  have later: "calculateRSI data p ! (nat p + 2 + j)
                = (case loop_avgs ch p ?seed (Suc j) of (g, l) \<Rightarrow>
                     if l = 0 then Some 100 else Some (100 - 100 / (1 + g / l)))"
    if l: "p + 1 \<le> int (length data)" and j: "nat p + 2 + j < length data" for j
  proof -
    from j have le: "Suc j \<le> length data - (nat p + 2)" by simp
    have "nat p + 2 + j = nat p + 1 + Suc j" by simp
    then have "calculateRSI data p ! (nat p + 2 + j) = ?F (Suc j)"
      using warmup_shape_nth(2)[OF long[OF l] le] by (simp only:)
    then show ?thesis
      by (simp add: rsi_value_def Let_def split: prod.splits)
  qed
  have range: "0 \<le> x \<and> x \<le> 100" if x: "Some x \<in> set (calculateRSI data p)" for x
  proof -
    from assms(1) x obtain j where
      F: "(case loop_avgs (price_changes data) p
            (seed_gain (price_changes data) p, seed_loss (price_changes data) p) j
          of (g, l) \<Rightarrow> rsi_value g l) = Some x"
      by (rule calculateRSI_defined)
    obtain g l where gl: "loop_avgs ch p ?seed j = (g, l)" by (cases "loop_avgs ch p ?seed j")
    have "0 \<le> fst (loop_avgs ch p ?seed j) \<and> 0 \<le> snd (loop_avgs ch p ?seed j)"
      by (rule loop_avgs_nonneg[OF assms(1)]) (simp_all add: seed_nonneg[OF assms(1)])
    with gl have "0 \<le> g" "0 \<le> l" by simp_all
    moreover from F gl have "rsi_value g l = Some x" by (simp add: assms(2))
    ultimately show ?thesis by (rule rsi_value_range)
  qed
  have const: "x = 100"
    if c: "\<forall>i < length data. data ! i = c" and x: "Some x \<in> set (calculateRSI data p)" for x
  proof -
    from assms(1) x obtain j where
      j: "j < Suc (length data - (nat p + 2))" and l: "p + 1 \<le> int (length data)" and
      F: "(case loop_avgs (price_changes data) p
            (seed_gain (price_changes data) p, seed_loss (price_changes data) p) j
          of (g, l) \<Rightarrow> rsi_value g l) = Some x"
      by (rule calculateRSI_defined)
    have ch: "price_changes data = replicate (length data - 1) 0"
      by (rule price_changes_constant[OF c])
    from j l have "j = 0 \<or> nat p + 1 + j \<le> length data - 1" by (cases j) simp_all
    then have "loop_avgs (replicate (length data - 1) 0) p (0, 0) j = (0, 0)"
      by (rule loop_avgs_constant)
    with F show ?thesis by (simp add: ch seed_constant rsi_value_def)
  qed
  have const_first: "calculateRSI data p ! (nat p + 1) = Some 100"
    if c: "\<forall>i < length data. data ! i = c" and l: "p + 1 \<le> int (length data)"
  proof -
    have "seed_loss ch p = 0"
      unfolding assms(2) price_changes_constant[OF c] by (rule seed_constant)
    with first[OF l] show ?thesis by simp
  qed
  from short warm first later range const const_first show ?thesis by blast
qed

lemma rsi_example_changes:
  "price_changes [3, 2, 3, 2, 4, 1] = [-1, 1, -1, 2, -3]"
  "price_changes [3, 2, 3, 1002, 1004, 1001] = [-1, 1, 999, 2, -3]"
  "price_changes [3, 2, 3] = [-1, 1]"
  by (simp_all add: price_changes_def upt_rec)

lemma rsi_example_seed:
  "seed_gain (-1 # 1 # cs) 2 = 1 / 2" "seed_loss (-1 # 1 # cs) 2 = 1 / 2"
  by (simp_all add: seed_gain_def seed_loss_def gain_of_def loss_of_def eval_nat_numeral)

lemma rsi_example_loop:
  "loop_avgs [-1, 1, c, 2, -3] 2 (1 / 2, 1 / 2) (Suc 0) = (5 / 4, 1 / 4)"
  "loop_avgs [-1, 1, c, 2, -3] 2 (1 / 2, 1 / 2) (Suc (Suc 0)) = (5 / 8, 13 / 8)"
  by (simp_all add: gain_of_def loss_of_def eval_nat_numeral)

lemma rsi_example_code:
  "calculateRSI [3, 2, 3, 2, 4, 1] 2 = [None, None, None, Some 50, Some (250 / 3), Some (250 / 9)]"
  "calculateRSI [3, 2, 3, 1002, 1004, 1001] 2
     = [None, None, None, Some 50, Some (250 / 3), Some (250 / 9)]"
proof -
  have shape: "calculateRSI d 2
      = replicate (nat 2 + 1) None
        @ map (\<lambda>j. case loop_avgs (price_changes d) 2
                          (seed_gain (price_changes d) 2, seed_loss (price_changes d) 2) j
                   of (g, l) \<Rightarrow> rsi_value g l)
             [0..<Suc (length d - (nat 2 + 2))]"
    if "length d = 6" for d :: "real list"
    by (rule calculateRSI_long) (simp_all add: that)
  show "calculateRSI [3, 2, 3, 2, 4, 1] 2
      = [None, None, None, Some 50, Some (250 / 3), Some (250 / 9)]"
    by (simp add: shape rsi_example_changes rsi_example_seed rsi_example_loop rsi_value_def
          gain_of_def loss_of_def Let_def upt_rec eval_nat_numeral)
  show "calculateRSI [3, 2, 3, 1002, 1004, 1001] 2
      = [None, None, None, Some 50, Some (250 / 3), Some (250 / 9)]"
    by (simp add: shape rsi_example_changes rsi_example_seed rsi_example_loop rsi_value_def
          gain_of_def loss_of_def Let_def upt_rec eval_nat_numeral)
qed

lemma rsi_example_spec:
  "rsi_spec [3, 2, 3, 2, 4, 1] 2 = [None, None, Some 50, Some 25, Some 75, Some 25]"
  "rsi_spec [3, 2, 3] 2 = [None, None, Some 50]"
proof -
  have w: "wilder_spec [-1, 1, -1, 2, -3] 2 (1 / 2, 1 / 2) (Suc 0) = (1 / 4, 3 / 4)"
    "wilder_spec [-1, 1, -1, 2, -3] 2 (1 / 2, 1 / 2) (Suc (Suc 0)) = (9 / 8, 3 / 8)"
    "wilder_spec [-1, 1, -1, 2, -3] 2 (1 / 2, 1 / 2) (Suc (Suc (Suc 0))) = (9 / 16, 27 / 16)"
    by (simp_all add: gain_of_def loss_of_def eval_nat_numeral)
  show "rsi_spec [3, 2, 3, 2, 4, 1] 2 = [None, None, Some 50, Some 25, Some 75, Some 25]"
    by (simp add: rsi_spec_def rsi_example_changes rsi_example_seed w gain_of_def loss_of_def
          upt_rec eval_nat_numeral)
  show "rsi_spec [3, 2, 3] 2 = [None, None, Some 50]"
    by (simp add: rsi_spec_def rsi_example_changes rsi_example_seed upt_rec eval_nat_numeral)
qed

text \<open>
  C4. The claim has the first \<open>p\<close> price changes seed the averages, the first defined
  value follow from the seed, and the subsequent values follow by Wilder's recursion on
  the current gain and loss, and has an input of \<open>p + 1\<close> prices or more yield defined
  values. \<^const>\<open>calculateRSI\<close> seeds as claimed, but pushes one undefined entry too many
  and starts its second loop one change too late: the seed value stands at index
  \<open>p + 1\<close> instead of \<open>p\<close>, and the change at index \<open>p\<close> enters no value. On the prices
  3, 2, 3, 2, 4, 1 with period 2 it returns undefined, undefined, undefined, 50, 250/3,
  250/9 where the specification gives undefined, undefined, 50, 25, 75, 25; replacing
  the last three prices by 1002, 1004, 1001, a jump of 999 at the change of index 2,
  changes no value; and on the three prices 3, 2, 3 no entry within the input is
  defined, where the specification gives 50 at index 2.
\<close>

theorem C4_calculateRSI_skips_change_at_period:
  "calculateRSI [3, 2, 3, 2, 4, 1] 2
     = [None, None, None, Some 50, Some (250 / 3), Some (250 / 9)]
   \<and> rsi_spec [3, 2, 3, 2, 4, 1] 2 = [None, None, Some 50, Some 25, Some 75, Some 25]
   \<and> calculateRSI [3, 2, 3, 1002, 1004, 1001] 2 = calculateRSI [3, 2, 3, 2, 4, 1] 2
   \<and> take 3 (calculateRSI [3, 2, 3] 2) = [None, None, None]
   \<and> rsi_spec [3, 2, 3] 2 = [None, None, Some 50]"
proof -
  have "calculateRSI [3, 2, 3] 2
      = replicate (nat 2 + 1) None
        @ map (\<lambda>j. case loop_avgs (price_changes [3, 2, 3]) 2
                          (seed_gain (price_changes [3, 2, 3]) 2,
                           seed_loss (price_changes [3, 2, 3]) 2) j
                   of (g, l) \<Rightarrow> rsi_value g l)
             [0..<Suc (length [3, 2, 3 :: real] - (nat 2 + 2))]"
    by (rule calculateRSI_long) simp_all
  then have short: "take 3 (calculateRSI [3, 2, 3] 2) = [None, None, None]"
    by (simp add: eval_nat_numeral)
  from short rsi_example_code rsi_example_spec show ?thesis by simp
qed

text \<open>
  C1. Every indicator function returns a series of the length of its input.
  \<^const>\<open>calculateEMA\<close> and the three series of \<^const>\<open>calculateMACD\<close> do (lemmas
  \<open>calculateEMA_length\<close>, \<open>calculateMACD_macdLine_length\<close>,
  \<open>calculateMACD_signalLine_length\<close>, \<open>calculateMACD_histogram_length\<close>), and so does
  \<^const>\<open>calculateRSI\<close> on an input shorter than \<open>period + 1\<close> or longer than it (lemmas
  \<open>calculateRSI_short\<close>, \<open>calculateRSI_length\<close>). On an input of exactly \<open>period + 1\<close>
  prices \<^const>\<open>calculateRSI\<close> pushes \<open>period + 1\<close> undefined entries and then the first
  value: the output is one entry longer than the input. Three prices and period 2 give
  four entries.
\<close>

theorem C1_calculateRSI_length_at_period_plus_one:
  "calculateRSI [1, 2, 3] 2 = [None, None, None, Some 100]
   \<and> length (calculateRSI [1, 2, 3] 2) = 4
   \<and> length [1, 2, 3 :: real] = 3"
proof -
  have ch: "price_changes [1, 2, 3] = [1, 1]"
    by (simp add: price_changes_def upt_rec)
  have sl: "seed_loss [1, 1] 2 = 0"
    by (simp add: seed_loss_def loss_of_def)
  have "calculateRSI [1, 2, 3] 2
      = replicate (nat 2 + 1) None
        @ map (\<lambda>j. case loop_avgs (price_changes [1, 2, 3]) 2
                          (seed_gain (price_changes [1, 2, 3]) 2,
                           seed_loss (price_changes [1, 2, 3]) 2) j
                   of (g, l) \<Rightarrow> rsi_value g l)
             [0..<Suc (length [1, 2, 3 :: real] - (nat 2 + 2))]"
    by (rule calculateRSI_long) simp_all
  then have "calculateRSI [1, 2, 3] 2 = [None, None, None, Some 100]"
    by (simp add: ch sl rsi_value_def eval_nat_numeral)
  then show ?thesis by simp
qed

section \<open>Properties of the event detector\<close>

lemma cell_at_in_range:
  "i < length xs \<Longrightarrow> cell_at xs i = (case xs ! i of None \<Rightarrow> Null | Some x \<Rightarrow> Number x)"
  by (simp add: cell_at_def)

lemma macd_cross_step_eq:
  assumes "0 < i" and "i < length A" and "length B = length A" and "length ts = length A"
  shows "macd_cross_step A B ts acc i
     = acc @ (if is_bullish A B i \<or> is_bearish A B i then [crossing_at A B ts i] else [])"
proof -
  from assms have r: "i - 1 < length A" "i - 1 < length B" "i < length B" "i < length ts"
    by simp_all
  show ?thesis
    unfolding macd_cross_step_def Let_def cell_at_in_range[OF assms(2)]
      cell_at_in_range[OF r(1)] cell_at_in_range[OF r(2)] cell_at_in_range[OF r(3)]
    using r(4)
    by (auto simp: is_bullish_def is_bearish_def pair_defined_def crossing_at_def time_at_def
          js_le_def js_lt_def to_number_def split: option.splits)
qed

lemma macd_cross_loop:
  assumes "length B = length A" and "length ts = length A"
    and "\<forall>i \<in> set is. 0 < i \<and> i < length A"
  shows "foldl (macd_cross_step A B ts) acc is
     = acc @ map (crossing_at A B ts) (filter (\<lambda>i. is_bullish A B i \<or> is_bearish A B i) is)"
  using assms(3)
proof (induction "is" arbitrary: acc)
  case Nil show ?case by simp
next
  case (Cons i "is")
  then have i: "0 < i" "i < length A" by simp_all
  from Cons show ?case
    by (simp add: macd_cross_step_eq[OF i assms(1,2)])
qed

lemma findMACDCrossovers_eq:
  assumes "length B = length A" and "length ts = length A"
  shows "findMACDCrossovers A B ts
     = map (crossing_at A B ts)
         (filter (\<lambda>i. is_bullish A B i \<or> is_bearish A B i) [1..<length A])"
  unfolding findMACDCrossovers_def
  by (simp add: macd_cross_loop[OF assms])

lemma zero_cross_step_eq:
  assumes "0 < i" and "i < length A"
  shows "zero_cross_step A ts acc i = macd_cross_step A (map (\<lambda>_. Some 0) A) ts acc i"
proof -
  from assms have "i - 1 < length A" by simp
  with assms(2) show ?thesis
    by (simp add: zero_cross_step_def macd_cross_step_def cell_at_def Let_def)
qed

lemma findZeroLineCrossovers_eq:
  "findZeroLineCrossovers A ts = findMACDCrossovers A (map (\<lambda>_. Some 0) A) ts"
  unfolding findZeroLineCrossovers_def findMACDCrossovers_def
  by (rule foldl_cong) (simp_all add: zero_cross_step_eq)

lemma not_bullish_and_bearish: "\<not> (is_bullish A B i \<and> is_bearish A B i)"
  by (auto simp: is_bullish_def is_bearish_def)

lemma sorted_wrt_nth_indices:
  assumes "sorted_wrt (<) (ts :: real list)" and "sorted_wrt (<) (is :: nat list)"
    and "\<forall>i \<in> set is. i < length ts"
  shows "sorted_wrt (<) (map (\<lambda>i. ts ! i) is)"
proof -
  have "sorted_wrt (\<lambda>i j. ts ! i < ts ! j) is"
  proof (rule sorted_wrt_mono_rel[OF _ assms(2)])
    fix i j assume "i \<in> set is" "j \<in> set is" "i < j"
    with assms(1,3) show "ts ! i < ts ! j"
      by (simp add: sorted_wrt_iff_nth_less)
  qed
  then show ?thesis by (simp add: sorted_wrt_map)
qed

lemma crossover_times_sorted:
  assumes "length B = length A" and "length ts = length A" and "sorted_wrt (<) ts"
  shows "sorted_wrt (<) (map (\<lambda>e. the (time e)) (findMACDCrossovers A B ts))"
proof -
  let ?is = "filter (\<lambda>i. is_bullish A B i \<or> is_bearish A B i) [1..<length A]"
  have "map (\<lambda>e. the (time e)) (findMACDCrossovers A B ts) = map (\<lambda>i. ts ! i) ?is"
    by (simp add: findMACDCrossovers_eq[OF assms(1,2)] crossing_at_def comp_def)
  moreover have "sorted_wrt (<) ?is"
    by (rule sorted_wrt_filter) (simp add: sorted_wrt_upt)
  moreover have "\<forall>i \<in> set ?is. i < length ts" using assms(2) by simp
  ultimately show ?thesis using sorted_wrt_nth_indices[OF assms(3)] by simp
qed

text \<open>
  C5. On aligned series \<open>A\<close>, \<open>B\<close> and times, \<^const>\<open>findMACDCrossovers\<close> emits, walking
  the adjacent pairs \<open>(i - 1, i)\<close> in index order, one event with time \<open>times[i]\<close> for
  each pair that is bullish or bearish and nothing for any other pair; a pair with an
  undefined sample is neither. Bullish means all four samples defined,
  \<open>prev[A] \<le> prev[B]\<close> and \<open>curr[A] > curr[B]\<close>; bearish means all four defined,
  \<open>prev[A] \<ge> prev[B]\<close> and \<open>curr[A] < curr[B]\<close>; no pair is both. So there is at most
  one event per pair, and with increasing times the events are in increasing time
  order. \<^const>\<open>findZeroLineCrossovers\<close> is the same algorithm with \<open>B\<close> the constant 0.
\<close>

theorem C5_crossover_events:
  assumes "length B = length A" and "length ts = length A"
  shows "findMACDCrossovers A B ts
           = map (\<lambda>i. \<lparr>time = Some (ts ! i),
                        type = (if is_bullish A B i then bullish else bearish)\<rparr>)
               (filter (\<lambda>i. is_bullish A B i \<or> is_bearish A B i) [1..<length A])
    \<and> (\<forall>i. \<not> (is_bullish A B i \<and> is_bearish A B i))
    \<and> (\<forall>i. \<not> pair_defined A B i \<longrightarrow> \<not> is_bullish A B i \<and> \<not> is_bearish A B i)
    \<and> length (findMACDCrossovers A B ts) \<le> length A - 1
    \<and> (sorted_wrt (<) ts \<longrightarrow>
          sorted_wrt (<) (map (\<lambda>e. the (time e)) (findMACDCrossovers A B ts)))
    \<and> findZeroLineCrossovers A ts = findMACDCrossovers A (map (\<lambda>_. Some 0) A) ts"
proof -
  have eq: "findMACDCrossovers A B ts
           = map (\<lambda>i. \<lparr>time = Some (ts ! i),
                        type = (if is_bullish A B i then bullish else bearish)\<rparr>)
               (filter (\<lambda>i. is_bullish A B i \<or> is_bearish A B i) [1..<length A])"
    using findMACDCrossovers_eq[OF assms] by (simp add: crossing_at_def[abs_def])
  have "length (filter (\<lambda>i. is_bullish A B i \<or> is_bearish A B i) [1..<length A])
      \<le> length [1..<length A]"
    by (rule length_filter_le)
  then have len: "length (findMACDCrossovers A B ts) \<le> length A - 1"
    unfolding eq by simp
  have undef: "\<forall>i. \<not> pair_defined A B i \<longrightarrow> \<not> is_bullish A B i \<and> \<not> is_bearish A B i"
    by (simp add: is_bullish_def is_bearish_def)
  from eq len undef not_bullish_and_bearish[of A B] crossover_times_sorted[OF assms]
    findZeroLineCrossovers_eq[of A ts]
  show ?thesis by blast
qed

theorem C5_crossover_events_witness:
  "length [None, Some 2, Some 2, Some 2, Some 1, Some (1::real)]
     = length [None, Some 1, Some 3, Some 1, Some 1, Some (0::real)]
   \<and> length [10, 20, 30, 40, 50, 60 :: real]
     = length [None, Some 1, Some 3, Some 1, Some 1, Some (0::real)]
   \<and> findMACDCrossovers [None, Some 1, Some 3, Some 1, Some 1, Some 0]
        [None, Some 2, Some 2, Some 2, Some 1, Some 1] [10, 20, 30, 40, 50, 60]
      = [\<lparr>time = Some 30, type = bullish\<rparr>, \<lparr>time = Some 40, type = bearish\<rparr>,
         \<lparr>time = Some 60, type = bearish\<rparr>]"
proof -
  let ?A = "[None, Some 1, Some 3, Some 1, Some 1, Some (0::real)]"
  let ?B = "[None, Some 2, Some 2, Some 2, Some 1, Some (1::real)]"
  let ?ts = "[10, 20, 30, 40, 50, 60 :: real]"
  have l: "length ?B = length ?A" "length ?ts = length ?A" by simp_all
  have "findMACDCrossovers ?A ?B ?ts
           = map (\<lambda>i. \<lparr>time = Some (?ts ! i),
                        type = (if is_bullish ?A ?B i then bullish else bearish)\<rparr>)
               (filter (\<lambda>i. is_bullish ?A ?B i \<or> is_bearish ?A ?B i) [1..<length ?A])"
    using C5_crossover_events[OF l] by blast
  also have "\<dots> = [\<lparr>time = Some 30, type = bullish\<rparr>, \<lparr>time = Some 40, type = bearish\<rparr>,
         \<lparr>time = Some 60, type = bearish\<rparr>]"
    by (simp add: upt_rec is_bullish_def is_bearish_def pair_defined_def)
  finally show ?thesis by simp
qed

section \<open>Properties of the validator\<close>

lemma bind_rejects: "Option.bind m f = None \<longleftrightarrow> m = None \<or> f (the m) = None"
  by (cases m) simp_all

lemma z_string_rejects: "z_string v = None \<longleftrightarrow> \<not> is_string v"
  by (simp add: z_string_def is_string_def split: option.splits json.splits)

lemma z_number_rejects: "z_number rel v = None \<longleftrightarrow> \<not> is_number (Under rel) v"
  by (simp add: z_number_def is_number_def split: option.splits json.splits number.splits)

lemma z_literal_rejects: "z_literal lit v = None \<longleftrightarrow> v \<noteq> Some (JString lit)"
  by (auto simp: z_literal_def split: option.splits json.splits if_splits)

lemma z_optional_rejects:
  "z_optional schema v = None \<longleftrightarrow> \<not> absent_or (\<lambda>v. schema v \<noteq> None) v"
  by (cases v) (simp_all add: z_optional_def absent_or_def)

lemma absent_or_cong: "(\<And>v. P v = Q v) \<Longrightarrow> absent_or P v = absent_or Q v"
  by (simp add: absent_or_def split: option.splits)

lemma z_optional_number_rejects:
  "z_optional (z_number rel) v = None \<longleftrightarrow> \<not> absent_or (is_number (Under rel)) v"
  unfolding z_optional_rejects by (simp add: z_number_rejects cong: absent_or_cong)

lemma z_optional_string_rejects:
  "z_optional z_string v = None \<longleftrightarrow> \<not> absent_or is_string v"
  unfolding z_optional_rejects by (simp add: z_string_rejects cong: absent_or_cong)

lemma TimeframeSchema_rejects:
  "TimeframeSchema v = None \<longleftrightarrow> \<not> is_one_of [''1h'', ''4h'', ''1d''] v"
  by (auto simp: TimeframeSchema_def is_one_of_def split: option.splits json.splits if_splits)

lemma IndicatorTypeSchema_rejects:
  "IndicatorTypeSchema v = None \<longleftrightarrow> \<not> is_one_of [''MACD'', ''RSI'', ''EMA''] v"
  by (auto simp: IndicatorTypeSchema_def is_one_of_def split: option.splits json.splits if_splits)

lemma PaneTypeSchema_rejects: "PaneTypeSchema v = None \<longleftrightarrow> \<not> is_pane v"
  by (auto simp: PaneTypeSchema_def is_pane_def is_one_of_def
        split: option.splits json.splits if_splits)

lemma z_optional_pane_rejects:
  "z_optional PaneTypeSchema v = None \<longleftrightarrow> \<not> absent_or is_pane v"
  unfolding z_optional_rejects by (simp add: PaneTypeSchema_rejects cong: absent_or_cong)

lemma parse_entries_rejects:
  "parse_entries rel fs = None
     \<longleftrightarrow> \<not> list_all (\<lambda>kx. (rel = Zod4 \<and> fst kx = ''__proto__'')
                            \<or> is_number (Under rel) (Some (snd kx))) fs"
proof (induction fs)
  case Nil show ?case by simp
next
  case (Cons kx fs)
  obtain k x where kx: "kx = (k, x)" by (cases kx)
  have "parse_entries rel (kx # fs) = None
      \<longleftrightarrow> \<not> ((rel = Zod4 \<and> k = ''__proto__'') \<or> z_number rel (Some x) \<noteq> None)
          \<or> parse_entries rel fs = None"
    by (auto simp: kx split: option.splits)
  with Cons show ?case by (simp add: kx z_number_rejects)
qed

lemma z_record_number_rejects:
  "z_record_number rel v = None \<longleftrightarrow> \<not> is_number_map (Under rel) v"
  by (simp add: z_record_number_def is_number_map_def parse_entries_rejects
        split: option.splits json.splits)

lemma z_optional_record_rejects:
  "z_optional (z_record_number rel) v = None
     \<longleftrightarrow> \<not> absent_or (is_number_map (Under rel)) v"
  unfolding z_optional_rejects by (simp add: z_record_number_rejects cong: absent_or_cong)

lemma parse_all_rejects:
  "parse_all schema xs = None \<longleftrightarrow> \<not> list_all (\<lambda>x. schema (Some x) \<noteq> None) xs"
proof (induction xs)
  case Nil show ?case by simp
next
  case (Cons x xs)
  have "parse_all schema (x # xs) = None
      \<longleftrightarrow> schema (Some x) = None \<or> parse_all schema xs = None"
    by (auto split: option.splits)
  with Cons show ?case by simp
qed

lemma z_object_simps:
  "z_object (Some (JObject fs)) = Some fs"
  "z_object None = None"
  by (simp_all add: z_object_def)

lemma z_object_rejects: "z_object v = None \<longleftrightarrow> (\<forall>fs. v \<noteq> Some (JObject fs))"
  by (auto simp: z_object_def split: option.splits json.splits)

lemmas field_rejects =
  bind_rejects z_string_rejects z_number_rejects z_literal_rejects
  z_optional_number_rejects z_optional_string_rejects z_optional_pane_rejects
  z_optional_record_rejects z_record_number_rejects
  TimeframeSchema_rejects IndicatorTypeSchema_rejects PaneTypeSchema_rejects

lemma HighlightPointSchema_rejects:
  "HighlightPointSchema rel v = None \<longleftrightarrow> \<not> is_point (Under rel) v"
proof (cases "\<exists>fs. v = Some (JObject fs)")
  case True
  then obtain fs where v: "v = Some (JObject fs)" by blast
  show ?thesis
    by (simp add: v HighlightPointSchema_def is_point_def z_object_simps field_rejects)
next
  case False
  then have "z_object v = None" "\<not> is_point (Under rel) v"
    by (auto simp: z_object_def is_point_def split: option.splits json.splits)
  then show ?thesis by (simp add: HighlightPointSchema_def)
qed

lemma RegionSchema_rejects: "RegionSchema rel v = None \<longleftrightarrow> \<not> is_region (Under rel) v"
proof (cases "\<exists>fs. v = Some (JObject fs)")
  case True
  then obtain fs where v: "v = Some (JObject fs)" by blast
  show ?thesis
    by (simp add: v RegionSchema_def is_region_def z_object_simps field_rejects)
next
  case False
  then have "z_object v = None" "\<not> is_region (Under rel) v"
    by (auto simp: z_object_def is_region_def split: option.splits json.splits)
  then show ?thesis by (simp add: RegionSchema_def)
qed

lemma AnnotationSchema_rejects:
  "AnnotationSchema rel v = None \<longleftrightarrow> \<not> is_annotation (Under rel) v"
proof (cases "\<exists>fs. v = Some (JObject fs)")
  case True
  then obtain fs where v: "v = Some (JObject fs)" by blast
  show ?thesis
    by (simp add: v AnnotationSchema_def is_annotation_def z_object_simps field_rejects)
next
  case False
  then have "z_object v = None" "\<not> is_annotation (Under rel) v"
    by (auto simp: z_object_def is_annotation_def split: option.splits json.splits)
  then show ?thesis by (simp add: AnnotationSchema_def)
qed

lemma z_array_points_rejects:
  "z_array (HighlightPointSchema rel) v = None \<longleftrightarrow> \<not> is_point_list (Under rel) v"
  by (simp add: z_array_def is_point_list_def parse_all_rejects HighlightPointSchema_rejects
        split: option.splits json.splits)

lemma RangeSchema_rejects: "RangeSchema rel v = None \<longleftrightarrow> \<not> is_range (Under rel) v"
proof (cases "\<exists>fs. v = Some (JObject fs)")
  case True
  then obtain fs where v: "v = Some (JObject fs)" by blast
  show ?thesis
    by (simp add: v RangeSchema_def is_range_def z_object_simps field_rejects)
next
  case False
  then have "z_object v = None" "\<not> is_range (Under rel) v"
    by (auto simp: z_object_def is_range_def split: option.splits json.splits)
  then show ?thesis by (simp add: RangeSchema_def)
qed

lemmas action_schema_defs =
  SetSymbolActionSchema_def SetTimeframeActionSchema_def LoadCandlesActionSchema_def
  AddIndicatorActionSchema_def UpdateIndicatorParamsActionSchema_def
  HighlightPointsActionSchema_def HighlightRegionActionSchema_def
  AddAnnotationActionSchema_def FocusRangeActionSchema_def
  ClearHighlightsActionSchema_def ClearIndicatorsActionSchema_def

lemma tagged_parse_rejects:
  assumes "map_of fs ''type'' = Some (JString t)"
  shows "ChartActionSchema_parse rel (JObject fs) = None
     \<longleftrightarrow> \<not> (t \<in> set command_tags \<and> fields_ok (Under rel) t fs)"
  using assms
  by (simp add: ChartActionSchema_parse_def action_schema_defs z_object_simps field_rejects
        z_array_points_rejects RegionSchema_rejects AnnotationSchema_rejects RangeSchema_rejects
        command_tags_def fields_ok_def)

lemma ChartActionSchema_parse_rejects:
  "ChartActionSchema_parse rel v = None \<longleftrightarrow> \<not> conforms (Under rel) v"
proof (cases v)
  case (JObject fs)
  show ?thesis
  proof (cases "\<exists>t. map_of fs ''type'' = Some (JString t)")
    case True
    then obtain t where t: "map_of fs ''type'' = Some (JString t)" by blast
    show ?thesis
      unfolding JObject tagged_parse_rejects[OF t] by (simp add: conforms_def t)
  next
    case False
    then show ?thesis
      by (auto simp: JObject ChartActionSchema_parse_def conforms_def
            split: option.splits json.splits)
  qed
qed (simp_all add: ChartActionSchema_parse_def conforms_def)

subsection \<open>The readings compared\<close>

lemma is_number_relaxed: "is_number AsWorded v \<Longrightarrow> is_number r v"
  by (auto simp: is_number_def split: option.splits json.splits number.splits)

lemma absent_or_mono: "(\<And>v. P v \<Longrightarrow> Q v) \<Longrightarrow> absent_or P v \<Longrightarrow> absent_or Q v"
  by (simp add: absent_or_def split: option.splits)

lemma list_all_mono: "(\<And>x. P x \<Longrightarrow> Q x) \<Longrightarrow> list_all P xs \<Longrightarrow> list_all Q xs"
  by (induction xs) simp_all

lemma is_number_map_relaxed: "is_number_map AsWorded v \<Longrightarrow> is_number_map r v"
proof (cases "\<exists>fs. v = Some (JObject fs)")
  case True
  assume a: "is_number_map AsWorded v"
  from True obtain fs where v: "v = Some (JObject fs)" by blast
  from a have "list_all (\<lambda>kx. is_number AsWorded (Some (snd kx))) fs"
    by (simp add: v is_number_map_def)
  then have "list_all (\<lambda>kx. (r = Under Zod4 \<and> fst kx = ''__proto__'')
                          \<or> is_number r (Some (snd kx))) fs"
    by (rule list_all_mono[rotated]) (simp add: is_number_relaxed)
  then show ?thesis by (simp add: v is_number_map_def)
next
  case False
  assume "is_number_map AsWorded v"
  with False show ?thesis
    by (auto simp: is_number_map_def split: option.splits json.splits)
qed

lemmas relaxed_fields =
  is_number_relaxed is_number_map_relaxed
  absent_or_mono[of "is_number AsWorded" "is_number r" for r, OF is_number_relaxed]
  absent_or_mono[of "is_number_map AsWorded" "is_number_map r" for r, OF is_number_map_relaxed]

lemma is_point_relaxed: "is_point AsWorded v \<Longrightarrow> is_point r v"
  by (auto simp: is_point_def intro: relaxed_fields split: option.splits json.splits)

lemma is_point_list_relaxed: "is_point_list AsWorded v \<Longrightarrow> is_point_list r v"
proof (cases "\<exists>xs. v = Some (JArray xs)")
  case True
  assume a: "is_point_list AsWorded v"
  from True obtain xs where v: "v = Some (JArray xs)" by blast
  from a have "list_all (\<lambda>x. is_point AsWorded (Some x)) xs"
    by (simp add: v is_point_list_def)
  then have "list_all (\<lambda>x. is_point r (Some x)) xs"
    by (rule list_all_mono[rotated]) (rule is_point_relaxed)
  then show ?thesis by (simp add: v is_point_list_def)
next
  case False
  assume "is_point_list AsWorded v"
  with False show ?thesis
    by (auto simp: is_point_list_def split: option.splits json.splits)
qed

lemma is_region_relaxed: "is_region AsWorded v \<Longrightarrow> is_region r v"
  by (auto simp: is_region_def intro: relaxed_fields split: option.splits json.splits)

lemma is_annotation_relaxed: "is_annotation AsWorded v \<Longrightarrow> is_annotation r v"
  by (auto simp: is_annotation_def intro: relaxed_fields split: option.splits json.splits)

lemma is_range_relaxed: "is_range AsWorded v \<Longrightarrow> is_range r v"
  by (auto simp: is_range_def intro: relaxed_fields split: option.splits json.splits)

lemma fields_ok_relaxed: "fields_ok AsWorded t fs \<Longrightarrow> fields_ok r t fs"
  by (auto simp: fields_ok_def
        intro: relaxed_fields is_point_list_relaxed is_region_relaxed is_annotation_relaxed
          is_range_relaxed
        split: if_splits)

lemma conforms_relaxed: "conforms AsWorded v \<Longrightarrow> conforms r v"
  by (auto simp: conforms_def intro: fields_ok_relaxed split: json.splits option.splits)

lemma conforms_shape:
  assumes "conforms r v"
  shows "\<exists>fs t. v = JObject fs \<and> map_of fs ''type'' = Some (JString t)
         \<and> t \<in> set command_tags \<and> fields_ok r t fs"
proof (cases v)
  case (JObject fs)
  with assms show ?thesis
    by (cases "map_of fs ''type''"; cases "the (map_of fs ''type'')")
       (simp_all add: conforms_def)
qed (use assms in \<open>simp_all add: conforms_def\<close>)

text \<open>
  C6, as the claim states it, has the validator reject every value with a non-finite
  numeric field or a wrong-typed field. Under zod release 3 a FOCUS_RANGE whose
  \<^verbatim>\<open>fromTime\<close> is the infinity of \<^verbatim>\<open>1e999\<close> is accepted; under zod release 4 an
  UPDATE_INDICATOR_PARAMS whose \<^verbatim>\<open>params\<close> holds a string under the key \<^verbatim>\<open>__proto__\<close> is
  accepted. Neither value meets the rules as worded.
\<close>

theorem C6_validator_accepts_beyond_wording:
  "ChartActionSchema_parse Zod3
      (JObject [(''type'', JString ''FOCUS_RANGE''),
                (''range'', JObject [(''fromTime'', JNumber PosInfinity),
                                     (''toTime'', JNumber (Finite 0))])])
     = Some (FOCUS_RANGE PosInfinity (Finite 0))
   \<and> \<not> conforms AsWorded
      (JObject [(''type'', JString ''FOCUS_RANGE''),
                (''range'', JObject [(''fromTime'', JNumber PosInfinity),
                                     (''toTime'', JNumber (Finite 0))])])
   \<and> ChartActionSchema_parse Zod4
      (JObject [(''type'', JString ''UPDATE_INDICATOR_PARAMS''),
                (''indicator'', JString ''MACD''),
                (''params'', JObject [(''__proto__'', JString ''x'')])])
     = Some (UPDATE_INDICATOR_PARAMS MACD [])
   \<and> \<not> conforms AsWorded
      (JObject [(''type'', JString ''UPDATE_INDICATOR_PARAMS''),
                (''indicator'', JString ''MACD''),
                (''params'', JObject [(''__proto__'', JString ''x'')])])"
  by (simp add: ChartActionSchema_parse_def FocusRangeActionSchema_def RangeSchema_def
        UpdateIndicatorParamsActionSchema_def IndicatorTypeSchema_def z_record_number_def
        z_object_def z_literal_def z_number_def conforms_def command_tags_def fields_ok_def
        is_range_def is_number_def is_number_map_def is_one_of_def)

text \<open>
  C6, amended. Under either zod release, \<^const>\<open>ChartActionSchema_parse\<close> accepts a value
  only if it is an object whose \<^verbatim>\<open>type\<close> field is one of the eleven tags and whose
  fields are as the tag requires: every required field present with its declared type,
  every optional field absent or of its type, every enumerated field within its value
  set, every numeric field a number, every entry of a \<^verbatim>\<open>params\<close> record a number. Under
  release 3 such a number may be infinite; under release 4 it is finite, as worded, but
  the entry of a record under the key \<^verbatim>\<open>__proto__\<close> is not checked. The validator accepts
  exactly these values, among them every value that meets the rules as worded.
\<close>

theorem C6_validator_accepts_only_wire_shapes:
  "(ChartActionSchema_parse rel v = Some a \<longrightarrow>
      (\<exists>fs t. v = JObject fs \<and> map_of fs ''type'' = Some (JString t)
         \<and> t \<in> set command_tags \<and> fields_ok (Under rel) t fs))
   \<and> ((\<exists>a. ChartActionSchema_parse rel v = Some a) \<longleftrightarrow> conforms (Under rel) v)
   \<and> (conforms AsWorded v \<longrightarrow> conforms (Under rel) v)
   \<and> (is_number (Under Zod4) f \<longleftrightarrow> is_number AsWorded f)
   \<and> (is_number (Under Zod3) f \<longleftrightarrow> (\<exists>n. f = Some (JNumber n)))
   \<and> (is_number_map (Under Zod3) f \<longleftrightarrow>
        (\<exists>es. f = Some (JObject es) \<and> list_all (\<lambda>kx. \<exists>n. snd kx = JNumber n) es))
   \<and> (is_number_map (Under Zod4) f \<longleftrightarrow>
        (\<exists>es. f = Some (JObject es)
           \<and> list_all (\<lambda>kx. fst kx = ''__proto__'' \<or> is_number AsWorded (Some (snd kx))) es))
   \<and> length command_tags = 11 \<and> distinct command_tags"
proof -
  have iff: "(\<exists>a. ChartActionSchema_parse rel v = Some a) \<longleftrightarrow> conforms (Under rel) v"
    using ChartActionSchema_parse_rejects[of rel v]
    by (cases "ChartActionSchema_parse rel v") simp_all
  have shape: "\<exists>fs t. v = JObject fs \<and> map_of fs ''type'' = Some (JString t)
         \<and> t \<in> set command_tags \<and> fields_ok (Under rel) t fs" if "conforms (Under rel) v"
    using that by (rule conforms_shape)
  have worded: "conforms (Under rel) v" if "conforms AsWorded v"
    using that by (rule conforms_relaxed)
  have n4: "is_number (Under Zod4) f \<longleftrightarrow> is_number AsWorded f"
    by (simp add: is_number_def split: option.splits json.splits number.splits)
  have n3: "is_number (Under Zod3) f \<longleftrightarrow> (\<exists>n. f = Some (JNumber n))"
    by (simp add: is_number_def split: option.splits json.splits number.splits)
  have n3': "is_number (Under Zod3) (Some x) \<longleftrightarrow> (\<exists>n. x = JNumber n)" for x
    by (simp add: is_number_def split: json.splits number.splits)
  have m3: "is_number_map (Under Zod3) f \<longleftrightarrow>
        (\<exists>es. f = Some (JObject es) \<and> list_all (\<lambda>kx. \<exists>n. snd kx = JNumber n) es)"
    by (simp add: is_number_map_def n3' split: option.splits json.splits)
  have n4': "is_number (Under Zod4) (Some x) \<longleftrightarrow> is_number AsWorded (Some x)" for x
    by (simp add: is_number_def split: json.splits number.splits)
  have m4: "is_number_map (Under Zod4) f \<longleftrightarrow>
        (\<exists>es. f = Some (JObject es)
           \<and> list_all (\<lambda>kx. fst kx = ''__proto__'' \<or> is_number AsWorded (Some (snd kx))) es)"
    by (simp add: is_number_map_def n4' split: option.splits json.splits)
  have tags: "length command_tags = 11 \<and> distinct command_tags"
    by (simp add: command_tags_def)
  from iff shape worded n4 n3 m3 m4 tags show ?thesis by blast
qed

theorem C6_validator_accepts_only_wire_shapes_witness:
  "ChartActionSchema_parse Zod4
      (JObject [(''type'', JString ''FOCUS_RANGE''),
                (''range'', JObject [(''fromTime'', JNumber (Finite 100)),
                                     (''toTime'', JNumber (Finite 200))])])
     = Some (FOCUS_RANGE (Finite 100) (Finite 200))
   \<and> conforms AsWorded
      (JObject [(''type'', JString ''FOCUS_RANGE''),
                (''range'', JObject [(''fromTime'', JNumber (Finite 100)),
                                     (''toTime'', JNumber (Finite 200))])])
   \<and> conforms (Under Zod4)
      (JObject [(''type'', JString ''FOCUS_RANGE''),
                (''range'', JObject [(''fromTime'', JNumber (Finite 100)),
                                     (''toTime'', JNumber (Finite 200))])])
   \<and> fields_ok (Under Zod4) ''FOCUS_RANGE''
        [(''type'', JString ''FOCUS_RANGE''),
         (''range'', JObject [(''fromTime'', JNumber (Finite 100)),
                              (''toTime'', JNumber (Finite 200))])]"
proof -
  let ?fs = "[(''type'', JString ''FOCUS_RANGE''),
              (''range'', JObject [(''fromTime'', JNumber (Finite 100)),
                                   (''toTime'', JNumber (Finite 200))])]"
  have p: "ChartActionSchema_parse Zod4 (JObject ?fs) = Some (FOCUS_RANGE (Finite 100) (Finite 200))"
    by (simp add: ChartActionSchema_parse_def FocusRangeActionSchema_def RangeSchema_def
          z_object_def z_literal_def z_number_def)
  have w: "conforms AsWorded (JObject ?fs)"
    by (simp add: conforms_def command_tags_def fields_ok_def is_range_def is_number_def)
  note c = C6_validator_accepts_only_wire_shapes[where rel = Zod4 and v = "JObject ?fs"
      and a = "FOCUS_RANGE (Finite 100) (Finite 200)"]
  from c w have "conforms (Under Zod4) (JObject ?fs)" by blast
  moreover from c p have "\<exists>fs t. JObject ?fs = JObject fs
      \<and> map_of fs ''type'' = Some (JString t) \<and> t \<in> set command_tags
      \<and> fields_ok (Under Zod4) t fs"
    by blast
  then have "fields_ok (Under Zod4) ''FOCUS_RANGE'' ?fs" by auto
  ultimately show ?thesis using p w by simp
qed

section \<open>Properties of the execution engine\<close>

lemma validate_loop:
  "foldl (validate_step rel) acc raw
     = acc @ map (the \<circ> ChartActionSchema_parse rel)
               (filter (\<lambda>r. ChartActionSchema_parse rel r \<noteq> None) raw)"
  by (induction raw arbitrary: acc) (auto simp: validate_step_def)

lemma validate_actions_eq:
  "validate_actions rel raw
     = map (the \<circ> ChartActionSchema_parse rel) (filter (\<lambda>r. ChartActionSchema_parse rel r \<noteq> None) raw)"
  by (simp add: validate_actions_def validate_loop)

lemma validate_actions_append:
  "validate_actions rel (xs @ ys) = validate_actions rel xs @ validate_actions rel ys"
  by (simp add: validate_actions_eq)

lemma validate_actions_rejected:
  "ChartActionSchema_parse rel bad = None \<Longrightarrow> validate_actions rel (bad # ys) = validate_actions rel ys"
  by (simp add: validate_actions_eq)


lemma executeActions_Cons:
  "executeActions fetch cl (a # as) st = executeActions fetch cl as (executeAction fetch cl a st)"
  by (simp add: executeActions_def)

lemma executeActions_append:
  "executeActions fetch cl (as @ bs) st
     = executeActions fetch cl bs (executeActions fetch cl as st)"
  by (simp add: executeActions_def)



section \<open>Properties of the indicator list\<close>

lemma replace_keeps_names:
  "name cfg = n \<Longrightarrow> map (name \<circ> (\<lambda>i. if name i = n then cfg else i)) inds = map name inds"
  by (induction inds) auto

lemma replace_filter_single:
  assumes "name cfg = n" and "distinct (map name inds)" and "\<exists>i \<in> set inds. name i = n"
  shows "filter (\<lambda>i. name i = n) (map (\<lambda>i. if name i = n then cfg else i) inds) = [cfg]"
  using assms(2,3)
proof (induction inds)
  case Nil then show ?case by simp
next
  case (Cons i inds)
  show ?case
  proof (cases "name i = n")
    case True
    from Cons.prems(1) have ni: "name i \<notin> name ` set inds" by simp
    have "\<forall>j \<in> set inds. name j \<noteq> n"
    proof
      fix j assume "j \<in> set inds"
      then have "name j \<in> name ` set inds" by (rule imageI)
      with ni have "name j \<noteq> name i" by metis
      with True show "name j \<noteq> n" by simp
    qed
    then have "filter (\<lambda>i. name i = n) (map (\<lambda>i. if name i = n then cfg else i) inds) = []"
      by (auto simp: filter_empty_conv)
    with True assms(1) show ?thesis by simp
  next
    case False
    with Cons show ?thesis by auto
  qed
qed

lemma update_keeps_names:
  "map (name \<circ> (\<lambda>i. if name i = n then i\<lparr>params := ps\<rparr> else i)) inds = map name inds"
  by (induction inds) auto

lemma add_indicator_indicators:
  "indicators (chartReducer s (ADD_INDICATOR' cfg))
     = (if list_ex (\<lambda>i. name i = name cfg) (indicators s)
        then map (\<lambda>i. if name i = name cfg then cfg else i) (indicators s)
        else indicators s @ [cfg])"
  by simp

lemma add_indicator_unique:
  assumes "unique_names s"
  shows "unique_names (chartReducer s (ADD_INDICATOR' cfg))"
    and "filter (\<lambda>i. name i = name cfg) (indicators (chartReducer s (ADD_INDICATOR' cfg))) = [cfg]"
proof -
  show "unique_names (chartReducer s (ADD_INDICATOR' cfg))"
    using assms
    by (auto simp: unique_names_def replace_keeps_names list_ex_iff)
  show "filter (\<lambda>i. name i = name cfg) (indicators (chartReducer s (ADD_INDICATOR' cfg))) = [cfg]"
  proof (cases "list_ex (\<lambda>i. name i = name cfg) (indicators s)")
    case True
    then have "\<exists>i \<in> set (indicators s). name i = name cfg" by (simp add: list_ex_iff)
    with assms True show ?thesis
      by (simp add: unique_names_def replace_filter_single)
  next
    case False
    then have "filter (\<lambda>i. name i = name cfg) (indicators s) = []"
      by (auto simp: list_ex_iff filter_empty_conv)
    with False show ?thesis by simp
  qed
qed

lemma loadCandles_indicators:
  "indicators (snd (loadCandles fetch cl symb tf st)) = indicators (snd st)"
  by (simp add: loadCandles_def loadCandles_dispatches_def Let_def split: option.splits)

lemma executeAction_unique:
  "unique_names (snd st) \<Longrightarrow> unique_names (snd (executeAction fetch cl a st))"
proof (cases a)
  case (ADD_INDICATOR ind ps)
  assume "unique_names (snd st)"
  then show ?thesis
    unfolding ADD_INDICATOR executeAction.simps snd_conv by (rule add_indicator_unique(1))
qed (simp_all add: unique_names_def loadCandles_indicators update_keeps_names)

lemma executeActions_unique:
  "unique_names (snd st) \<Longrightarrow> unique_names (snd (executeActions fetch cl as st))"
  by (induction as arbitrary: st) (simp_all add: executeActions_def executeAction_unique)

text \<open>
  C8. ADD_INDICATOR upserts the configuration keyed by the indicator name: when a
  configuration of that name exists it is replaced, otherwise the new one is appended.
  The new configuration holds the given params, or the defaults of the type when params
  is absent (MACD: fast 12, slow 26, signal 9; RSI: period 14; EMA: period 20). A list
  with at most one configuration per name stays so and then holds exactly the new
  configuration under that name; every state reached from the initial state by a batch
  has at most one configuration per name. ADD_INDICATOR for MACD twice, the second
  time with explicit params, leaves one MACD configuration, with the second params.
\<close>

theorem C8_add_indicator_upsert:
  assumes "cfg = \<lparr>name = ind, params = (case ps of Some p \<Rightarrow> p | None \<Rightarrow> defaultParams ind),
                   visible = True\<rparr>"
    and "s' = snd (executeAction fetch cl (ADD_INDICATOR ind ps) (n, s))"
  shows "((\<exists>i \<in> set (indicators s). name i = ind) \<longrightarrow>
            indicators s' = map (\<lambda>i. if name i = ind then cfg else i) (indicators s))
    \<and> (\<not> (\<exists>i \<in> set (indicators s). name i = ind) \<longrightarrow> indicators s' = indicators s @ [cfg])
    \<and> (distinct (map name (indicators s)) \<longrightarrow>
          distinct (map name (indicators s'))
          \<and> filter (\<lambda>i. name i = ind) (indicators s') = [cfg])
    \<and> distinct (map name (indicators (snd (executeActions fetch cl acts (n, initialState)))))
    \<and> defaultParams MACD = [(''fast'', Finite 12), (''slow'', Finite 26), (''signal'', Finite 9)]
    \<and> defaultParams RSI = [(''period'', Finite 14)]
    \<and> defaultParams EMA = [(''period'', Finite 20)]
    \<and> (distinct (map name (indicators s)) \<longrightarrow>
          filter (\<lambda>i. name i = MACD)
            (indicators (snd (executeActions fetch cl
               [ADD_INDICATOR MACD None, ADD_INDICATOR MACD (Some q)] (n, s))))
          = [\<lparr>name = MACD, params = q, visible = True\<rparr>])"
proof -
  have s': "s' = chartReducer s (ADD_INDICATOR' cfg)"
    by (simp add: assms)
  have nm: "name cfg = ind" by (simp add: assms(1))
  have replace: "indicators s' = map (\<lambda>i. if name i = ind then cfg else i) (indicators s)"
    if "\<exists>i \<in> set (indicators s). name i = ind"
    using that unfolding s' add_indicator_indicators nm by (simp add: list_ex_iff)
  have append: "indicators s' = indicators s @ [cfg]"
    if "\<not> (\<exists>i \<in> set (indicators s). name i = ind)"
    using that unfolding s' add_indicator_indicators nm by (simp add: list_ex_iff)
  have keep: "distinct (map name (indicators s'))
          \<and> filter (\<lambda>i. name i = ind) (indicators s') = [cfg]"
    if "distinct (map name (indicators s))"
  proof -
    from that have u: "unique_names s" by (simp add: unique_names_def)
    from add_indicator_unique[OF u, of cfg] show ?thesis
      by (simp add: s' nm unique_names_def del: chartReducer.simps)
  qed
  have "unique_names (snd (executeActions fetch cl acts (n, initialState)))"
    by (rule executeActions_unique) (simp add: unique_names_def initialState_def)
  then have reach: "distinct (map name (indicators (snd (executeActions fetch cl acts
      (n, initialState)))))"
    by (simp add: unique_names_def)
  have twice: "filter (\<lambda>i. name i = MACD)
            (indicators (snd (executeActions fetch cl
               [ADD_INDICATOR MACD None, ADD_INDICATOR MACD (Some q)] (n, s))))
          = [\<lparr>name = MACD, params = q, visible = True\<rparr>]"
    if "distinct (map name (indicators s))"
  proof -
    let ?c1 = "\<lparr>name = MACD, params = defaultParams MACD, visible = True\<rparr>"
    let ?c2 = "\<lparr>name = MACD, params = q, visible = True\<rparr>"
    from that have "unique_names s" by (simp add: unique_names_def)
    then have "unique_names (chartReducer s (ADD_INDICATOR' ?c1))"
      by (rule add_indicator_unique(1))
    from add_indicator_unique(2)[OF this, of ?c2] show ?thesis
      by (simp add: executeActions_def del: chartReducer.simps)
  qed
  have defaults: "defaultParams MACD = [(''fast'', Finite 12), (''slow'', Finite 26), (''signal'', Finite 9)]"
    "defaultParams RSI = [(''period'', Finite 14)]" "defaultParams EMA = [(''period'', Finite 20)]"
    by (simp_all add: defaultParams_def)
  from replace append keep reach twice defaults show ?thesis by blast
qed

theorem C8_add_indicator_upsert_witness:
  "distinct (map name (indicators initialState))
   \<and> indicators (snd (executeAction fetch_fails initial_closure (ADD_INDICATOR RSI None) (0, initialState)))
      = [\<lparr>name = RSI, params = [(''period'', Finite 14)], visible = True\<rparr>]
   \<and> filter (\<lambda>i. name i = MACD)
        (indicators (snd (executeActions fetch_fails initial_closure
           [ADD_INDICATOR MACD None,
            ADD_INDICATOR MACD (Some [(''fast'', Finite 5), (''slow'', Finite 10), (''signal'', Finite 3)])]
           (0, initialState))))
      = [\<lparr>name = MACD, params = [(''fast'', Finite 5), (''slow'', Finite 10), (''signal'', Finite 3)],
          visible = True\<rparr>]"
proof -
  have d: "distinct (map name (indicators initialState))"
    by (simp add: initialState_def)
  have none: "\<not> (\<exists>i \<in> set (indicators initialState). name i = RSI)"
    by (simp add: initialState_def)
  note c = C8_add_indicator_upsert[OF refl refl, where s = initialState and ind = RSI
      and ps = None and fetch = fetch_fails and cl = initial_closure and n = 0 and acts = "[]"
      and q = "[(''fast'', Finite 5), (''slow'', Finite 10), (''signal'', Finite 3)]"]
  from c none have "indicators (snd (executeAction fetch_fails initial_closure (ADD_INDICATOR RSI None)
      (0, initialState)))
      = indicators initialState
        @ [\<lparr>name = RSI, params = (case None of Some p \<Rightarrow> p | None \<Rightarrow> defaultParams RSI),
            visible = True\<rparr>]"
    by blast
  moreover from c have "defaultParams RSI = [(''period'', Finite 14)]" by blast
  ultimately have one: "indicators (snd (executeAction fetch_fails initial_closure (ADD_INDICATOR RSI None)
      (0, initialState)))
      = [\<lparr>name = RSI, params = [(''period'', Finite 14)], visible = True\<rparr>]"
    by (simp add: initialState_def)
  from c d have "filter (\<lambda>i. name i = MACD)
        (indicators (snd (executeActions fetch_fails initial_closure
           [ADD_INDICATOR MACD None,
            ADD_INDICATOR MACD (Some [(''fast'', Finite 5), (''slow'', Finite 10), (''signal'', Finite 3)])]
           (0, initialState))))
      = [\<lparr>name = MACD, params = [(''fast'', Finite 5), (''slow'', Finite 10), (''signal'', Finite 3)],
          visible = True\<rparr>]"
    by blast
  with d one show ?thesis by blast
qed

section \<open>Frame of the commands without reload\<close>

text \<open>
  C10. A command other than SET_SYMBOL, SET_TIMEFRAME and LOAD_CANDLES makes no
  request and leaves \<open>symbol\<close>, \<open>timeframe\<close>, \<open>candles\<close> and \<open>isLoading\<close> as they were:
  the new state is the old one with, at most, other \<open>indicators\<close>, \<open>highlights\<close>,
  \<open>annotations\<close>, \<open>visibleFrom\<close> and \<open>visibleTo\<close>.
\<close>

theorem C10_frame_of_commands_without_reload:
  assumes "\<not> reloads a" and "st' = executeAction fetch cl a (n, s)"
  shows "fst st' = n
    \<and> symbol (snd st') = symbol s \<and> timeframe (snd st') = timeframe s
    \<and> candles (snd st') = candles s \<and> isLoading (snd st') = isLoading s
    \<and> snd st' = s\<lparr>indicators := indicators (snd st'), highlights := highlights (snd st'),
                   annotations := annotations (snd st'), visibleFrom := visibleFrom (snd st'),
                   visibleTo := visibleTo (snd st')\<rparr>"
  using assms by (cases a) (simp_all add: reloads_def)

theorem C10_frame_of_commands_without_reload_witness:
  "\<not> reloads CLEAR_HIGHLIGHTS
   \<and> candles (snd (executeAction fetch_fails initial_closure CLEAR_HIGHLIGHTS (3, initialState))) = []
   \<and> symbol (snd (executeAction fetch_fails initial_closure CLEAR_HIGHLIGHTS (3, initialState))) = ''BTCUSDT''
   \<and> fst (executeAction fetch_fails initial_closure CLEAR_HIGHLIGHTS (3, initialState)) = 3"
proof -
  have r: "\<not> reloads CLEAR_HIGHLIGHTS" by (simp add: reloads_def)
  from C10_frame_of_commands_without_reload[OF r refl, of fetch_fails initial_closure 3 initialState]
  have "fst (executeAction fetch_fails initial_closure CLEAR_HIGHLIGHTS (3, initialState)) = 3
    \<and> symbol (snd (executeAction fetch_fails initial_closure CLEAR_HIGHLIGHTS (3, initialState)))
        = symbol initialState
    \<and> candles (snd (executeAction fetch_fails initial_closure CLEAR_HIGHLIGHTS (3, initialState)))
        = candles initialState"
    by blast
  with r show ?thesis by (simp add: initialState_def)
qed

section \<open>Failure of a candle reload\<close>

lemma loadCandles_failed:
  assumes "\<forall>symb tf. fetch (fst st) symb tf = None"
  shows "loadCandles fetch cl sy t st = (Suc (fst st), (snd st)\<lparr>isLoading := False\<rparr>)"
  using assms by (simp add: loadCandles_def loadCandles_dispatches_def Let_def)

text \<open>
  In any state, a reload that fails leaves what a reload that succeeds with the candles
  already loaded leaves.
\<close>

lemma failed_reload_as_same_candles:
  "loadCandles fetch_fails cl sy t (n, s)
     = loadCandles (fetch_returns (candles s)) cl sy t (n, s)"
  by (simp add: loadCandles_def loadCandles_dispatches_def fetch_fails_def fetch_returns_def
        Let_def)

text \<open>
  C9, as the claim states it, asks that a failed reload surface a loading-error
  indicator. The state has no field for it and the reducer no action: a LOAD_CANDLES
  whose request fails dispatches \<^verbatim>\<open>SET_LOADING true\<close> and \<^verbatim>\<open>SET_LOADING false\<close> and nothing
  else, and leaves the initial state exactly as it was, which is also the state that a
  successful reload returning the candles already loaded leaves.
\<close>

theorem C9_failed_reload_surfaces_nothing:
  "snd (executeAction fetch_fails initial_closure (LOAD_CANDLES ''ETHUSDT'' ''1h'' None None)
          (0, initialState)) = initialState
   \<and> snd (executeAction fetch_fails initial_closure (LOAD_CANDLES ''ETHUSDT'' ''1h'' None None)
          (0, initialState))
     = snd (executeAction (fetch_returns (candles initialState)) initial_closure
          (LOAD_CANDLES ''ETHUSDT'' ''1h'' None None) (0, initialState))
   \<and> loadCandles_dispatches fetch_fails initial_closure (Some ''ETHUSDT'') (Some ''1h'') 0
     = [SET_LOADING True, SET_LOADING False]"
  by (simp add: loadCandles_def loadCandles_dispatches_def fetch_fails_def fetch_returns_def
        initialState_def Let_def)

text \<open>
  C9, amended. When the request of a reload triggered by SET_SYMBOL, SET_TIMEFRAME or
  LOAD_CANDLES fails, the candles already loaded are untouched, as are the indicators,
  highlights, annotations and visible range; \<open>isLoading\<close> is back to false; the state
  is the old one with the symbol or timeframe of the command and \<open>isLoading = false\<close>,
  and records no error. Nothing is raised: the rest of the batch runs from that state,
  on the stale candles.
\<close>

theorem C9_failed_reload_keeps_candles:
  assumes "reloads a" and "\<forall>symb tf. fetch n symb tf = None"
    and "st' = executeAction fetch cl a (n, s)"
  shows "candles (snd st') = candles s
    \<and> isLoading (snd st') = False
    \<and> fst st' = Suc n
    \<and> indicators (snd st') = indicators s \<and> highlights (snd st') = highlights s
    \<and> annotations (snd st') = annotations s
    \<and> visibleFrom (snd st') = visibleFrom s \<and> visibleTo (snd st') = visibleTo s
    \<and> snd st' = (case a of
                   SET_SYMBOL symb \<Rightarrow> s\<lparr>symbol := symb, isLoading := False\<rparr>
                 | SET_TIMEFRAME tf \<Rightarrow> s\<lparr>timeframe := tf, isLoading := False\<rparr>
                 | _ \<Rightarrow> s\<lparr>isLoading := False\<rparr>)
    \<and> executeActions fetch cl (a # rest) (n, s) = executeActions fetch cl rest st'"
proof (cases a)
  case (SET_SYMBOL symb)
  have "st' = (Suc n, (s\<lparr>symbol := symb\<rparr>)\<lparr>isLoading := False\<rparr>)"
    using assms(2) by (simp add: assms(3) SET_SYMBOL loadCandles_failed)
  then show ?thesis by (simp add: SET_SYMBOL executeActions_Cons assms(3))
next
  case (SET_TIMEFRAME tf)
  have "st' = (Suc n, (s\<lparr>timeframe := tf\<rparr>)\<lparr>isLoading := False\<rparr>)"
    using assms(2) by (simp add: assms(3) SET_TIMEFRAME loadCandles_failed)
  then show ?thesis by (simp add: SET_TIMEFRAME executeActions_Cons assms(3))
next
  case (LOAD_CANDLES symb tf f t)
  have "st' = (Suc n, s\<lparr>isLoading := False\<rparr>)"
    using assms(2) by (simp add: assms(3) LOAD_CANDLES loadCandles_failed)
  then show ?thesis by (simp add: LOAD_CANDLES executeActions_Cons assms(3))
qed (use assms(1) in \<open>simp_all add: reloads_def\<close>)

theorem C9_failed_reload_keeps_candles_witness:
  "reloads (SET_SYMBOL ''ETHUSDT'')
   \<and> fetch_fails 0 ''ETHUSDT'' ''1d'' = None
   \<and> executeAction fetch_fails initial_closure (SET_SYMBOL ''ETHUSDT'') (0, initialState)
      = (1, initialState\<lparr>symbol := ''ETHUSDT''\<rparr>)
   \<and> executeActions fetch_fails initial_closure [SET_SYMBOL ''ETHUSDT'', CLEAR_HIGHLIGHTS]
        (0, initialState)
      = executeActions fetch_fails initial_closure [CLEAR_HIGHLIGHTS]
          (1, initialState\<lparr>symbol := ''ETHUSDT''\<rparr>)"
proof -
  have r: "reloads (SET_SYMBOL ''ETHUSDT'')" by (simp add: reloads_def)
  have f: "\<forall>symb tf. fetch_fails 0 symb tf = None" by (simp add: fetch_fails_def)
  note c = C9_failed_reload_keeps_candles[where a = "SET_SYMBOL ''ETHUSDT''"
      and fetch = fetch_fails and n = 0 and cl = initial_closure and s = initialState
      and rest = "[CLEAR_HIGHLIGHTS]", OF r f refl]
  from c have fst: "fst (executeAction fetch_fails initial_closure (SET_SYMBOL ''ETHUSDT'')
      (0, initialState)) = Suc 0"
    by blast
  from c have "snd (executeAction fetch_fails initial_closure (SET_SYMBOL ''ETHUSDT'')
      (0, initialState))
      = (case SET_SYMBOL ''ETHUSDT'' of
           SET_SYMBOL symb \<Rightarrow> initialState\<lparr>symbol := symb, isLoading := False\<rparr>
         | SET_TIMEFRAME tf \<Rightarrow> initialState\<lparr>timeframe := tf, isLoading := False\<rparr>
         | _ \<Rightarrow> initialState\<lparr>isLoading := False\<rparr>)"
    by blast
  then have snd: "snd (executeAction fetch_fails initial_closure (SET_SYMBOL ''ETHUSDT'')
      (0, initialState)) = initialState\<lparr>symbol := ''ETHUSDT''\<rparr>"
    by (simp add: initialState_def)
  from fst snd have st: "executeAction fetch_fails initial_closure (SET_SYMBOL ''ETHUSDT'')
      (0, initialState) = (1, initialState\<lparr>symbol := ''ETHUSDT''\<rparr>)"
    by (simp add: prod_eq_iff)
  from c have "executeActions fetch_fails initial_closure
      (SET_SYMBOL ''ETHUSDT'' # [CLEAR_HIGHLIGHTS]) (0, initialState)
      = executeActions fetch_fails initial_closure [CLEAR_HIGHLIGHTS]
          (executeAction fetch_fails initial_closure (SET_SYMBOL ''ETHUSDT'') (0, initialState))"
    by blast
  with st r show ?thesis by (simp add: fetch_fails_def)
qed

end
